theory Spec2Isabelle
  imports Complex_Main
begin

section \<open>The magnetic system of \<^verbatim>\<open>magnetic_system.py\<close>\<close>

text \<open>
  The class \<^verbatim>\<open>magnetic_system\<close> keeps a field tensor \<^verbatim>\<open>Bs\<close> of shape
  \<^verbatim>\<open>(Nx, Ny, Nz, 3, Ncoils)\<close>, the three coordinate axes of the sampling grid, three
  derivative tensors of the same shape and four interpolators over the grid.

  Numbers are modelled as real numbers: the theorems below are about the index structure
  and the arithmetic expressions the code evaluates, not about rounding of
  floating-point operations. A numpy array of dimension five is a nested list; numpy
  arrays are rectangular, which the predicate \<open>is_shape\<close> states.
\<close>

type_synonym mat = "real list list"
type_synonym tensor = "mat list list list"

datatype error = IndexError | ValueError | InconsistentGridError | OutOfBoundsError

text \<open>\<^verbatim>\<open>T.shape[0]\<close>, \<^verbatim>\<open>T.shape[1]\<close>, \<^verbatim>\<open>T.shape[2]\<close>. The loops that use the second
  and third length run only when the lengths before them are positive.\<close>

definition shape0 :: "tensor \<Rightarrow> nat" where
  "shape0 T = length T"

definition shape1 :: "tensor \<Rightarrow> nat" where
  "shape1 T = (case T of [] \<Rightarrow> 0 | p # _ \<Rightarrow> length p)"

definition shape2 :: "tensor \<Rightarrow> nat" where
  "shape2 T = (case T of [] \<Rightarrow> 0 | p # _ \<Rightarrow> (case p of [] \<Rightarrow> 0 | l # _ \<Rightarrow> length l))"

definition shape4 :: "tensor \<Rightarrow> nat" where
  "shape4 T = (case T of [] \<Rightarrow> 0 | p # _ \<Rightarrow> (case p of [] \<Rightarrow> 0 | l # _ \<Rightarrow>
     (case l of [] \<Rightarrow> 0 | M # _ \<Rightarrow> (case M of [] \<Rightarrow> 0 | r # _ \<Rightarrow> length r))))"

definition is_mat :: "nat \<Rightarrow> nat \<Rightarrow> mat \<Rightarrow> bool" where
  "is_mat n3 n4 M \<longleftrightarrow> length M = n3 \<and> (\<forall>r \<in> set M. length r = n4)"

definition is_shape :: "nat \<Rightarrow> nat \<Rightarrow> nat \<Rightarrow> nat \<Rightarrow> nat \<Rightarrow> tensor \<Rightarrow> bool" where
  "is_shape n0 n1 n2 n3 n4 T \<longleftrightarrow>
     length T = n0 \<and> (\<forall>p \<in> set T. length p = n1 \<and>
       (\<forall>l \<in> set p. length l = n2 \<and> (\<forall>M \<in> set l. is_mat n3 n4 M)))"

text \<open>\<^verbatim>\<open>np.zeros(T.shape)\<close>\<close>

definition zeros_like :: "tensor \<Rightarrow> tensor" where
  "zeros_like T = map (map (map (map (map (\<lambda>_. 0))))) T"

text \<open>Reading \<^verbatim>\<open>T[i,j,k,:,:]\<close>; numpy raises IndexError out of range (\<open>None\<close>).\<close>

definition node :: "tensor \<Rightarrow> nat \<Rightarrow> nat \<Rightarrow> nat \<Rightarrow> mat option" where
  "node T i j k =
     (if i < length T \<and> j < length (T ! i) \<and> k < length (T ! i ! j)
      then Some (T ! i ! j ! k) else None)"

text \<open>The assignment \<^verbatim>\<open>T[i,j,k,:,:] = M\<close>.\<close>

definition set_node :: "tensor \<Rightarrow> nat \<Rightarrow> nat \<Rightarrow> nat \<Rightarrow> mat \<Rightarrow> tensor option" where
  "set_node T i j k M =
     (if i < length T \<and> j < length (T ! i) \<and> k < length (T ! i ! j)
      then Some (T[i := (T ! i)[j := (T ! i ! j)[k := M]]]) else None)"

text \<open>The elementwise \<^verbatim>\<open>(A - B) / delta\<close> on two \<^verbatim>\<open>(3, Ncoils)\<close> slices.\<close>

definition mat_diffq :: "mat \<Rightarrow> mat \<Rightarrow> real \<Rightarrow> mat" where
  "mat_diffq A B delta = map2 (\<lambda>ra rb. map2 (\<lambda>a b. (a - b) / delta) ra rb) A B"

definition diffq :: "mat option \<Rightarrow> mat option \<Rightarrow> real \<Rightarrow> mat option" where
  "diffq hi lo delta =
     (case hi of None \<Rightarrow> None
      | Some A \<Rightarrow> (case lo of None \<Rightarrow> None | Some B \<Rightarrow> Some (mat_diffq A B delta)))"

text \<open>A \<^verbatim>\<open>for\<close> loop over a range whose body may raise: the error comes with the
  state the loop had reached.\<close>

fun for_loop :: "nat list \<Rightarrow> (nat \<Rightarrow> 's \<Rightarrow> (error \<times> 's) + 's) \<Rightarrow> 's \<Rightarrow> (error \<times> 's) + 's" where
  "for_loop [] body s = Inr s"
| "for_loop (i # is) body s =
     (case body i s of Inl e \<Rightarrow> Inl e | Inr s' \<Rightarrow> for_loop is body s')"

text \<open>The loop nest of \<^verbatim>\<open>_compute_gradient_tensor\<close>, which is the same for the three
  directions: \<^verbatim>\<open>for nx: for ny: for nz: D[nx,ny,nz,:,:] = rhs\<close>. The body raises IndexError
  when the right-hand side reads out of range.\<close>

definition store_node ::
  "(nat \<Rightarrow> nat \<Rightarrow> nat \<Rightarrow> mat option) \<Rightarrow> nat \<Rightarrow> nat \<Rightarrow> nat \<Rightarrow> tensor \<Rightarrow> (error \<times> tensor) + tensor" where
  "store_node rhs nx ny nz D =
     (case rhs nx ny nz of
        None \<Rightarrow> Inl (IndexError, D)
      | Some M \<Rightarrow> (case set_node D nx ny nz M of
                    None \<Rightarrow> Inl (IndexError, D)
                  | Some D' \<Rightarrow> Inr D'))"

definition fill_nodes ::
  "nat \<Rightarrow> nat \<Rightarrow> nat \<Rightarrow> (nat \<Rightarrow> nat \<Rightarrow> nat \<Rightarrow> mat option) \<Rightarrow> tensor \<Rightarrow> (error \<times> tensor) + tensor" where
  "fill_nodes Nx Ny Nz rhs D0 =
     for_loop [0..<Nx] (\<lambda>nx. for_loop [0..<Ny] (\<lambda>ny. for_loop [0..<Nz] (store_node rhs nx ny))) D0"

text \<open>The right-hand sides of the three assignments, in the order of the source's
  \<^verbatim>\<open>if\<close>/\<^verbatim>\<open>elif\<close>/\<^verbatim>\<open>else\<close>.\<close>

definition dBdx_rhs :: "tensor \<Rightarrow> real \<Rightarrow> nat \<Rightarrow> nat \<Rightarrow> nat \<Rightarrow> nat \<Rightarrow> mat option" where
  "dBdx_rhs B delta Nx nx ny nz =
     (if nx = 0 then diffq (node B (nx + 1) ny nz) (node B nx ny nz) delta
      else if nx = Nx - 1 then diffq (node B nx ny nz) (node B (nx - 1) ny nz) delta
      else diffq (node B (nx + 1) ny nz) (node B (nx - 1) ny nz) delta)"

definition dBdy_rhs :: "tensor \<Rightarrow> real \<Rightarrow> nat \<Rightarrow> nat \<Rightarrow> nat \<Rightarrow> nat \<Rightarrow> mat option" where
  "dBdy_rhs B delta Ny nx ny nz =
     (if ny = 0 then diffq (node B nx (ny + 1) nz) (node B nx ny nz) delta
      else if ny = Ny - 1 then diffq (node B nx ny nz) (node B nx (ny - 1) nz) delta
      else diffq (node B nx (ny + 1) nz) (node B nx (ny - 1) nz) delta)"

definition dBdz_rhs :: "tensor \<Rightarrow> real \<Rightarrow> nat \<Rightarrow> nat \<Rightarrow> nat \<Rightarrow> nat \<Rightarrow> mat option" where
  "dBdz_rhs B delta Nz nx ny nz =
     (if nz = 0 then diffq (node B nx ny (nz + 1)) (node B nx ny nz) delta
      else if nz = Nz - 1 then diffq (node B nx ny nz) (node B nx ny (nz - 1)) delta
      else diffq (node B nx ny (nz + 1)) (node B nx ny (nz - 1)) delta)"


subsection \<open>The interpolators\<close>

text \<open>
  Modelled from the spec: the four interpolators are
  \<^verbatim>\<open>scipy.interpolate.RegularGridInterpolator\<close> objects, whose code is not part of the
  source tree. The spec (sections 3, 4.1, 4.2 and 7): an interpolator is bound to the
  three axes and one tensor whose first three dimensions match the axis lengths, every
  axis strictly increasing with at least two values (otherwise the grid is inconsistent);
  a query outside the box of the axes fails with OutOfBoundsError, with no
  extrapolation; inside, the result is the interpolation over the 8 nodes of the
  enclosing cell, linear along each axis, the same for every (component, coil) entry.
  The source calls the constructor with its defaults (linear, bounds checked).
  \<open>interp_query\<close> is the query at one point; \<open>interp_call\<close> below is the call as Python
  makes it, whose result has the shape the library gives it for the form of the argument.
\<close>

record interpolator =
  grid_x :: "real list"
  grid_y :: "real list"
  grid_z :: "real list"
  grid_values :: tensor

definition grid_matches :: "real list \<Rightarrow> real list \<Rightarrow> real list \<Rightarrow> tensor \<Rightarrow> bool" where
  "grid_matches xs ys zs V \<longleftrightarrow>
     length V = length xs \<and> (\<forall>p \<in> set V. length p = length ys \<and>
       (\<forall>l \<in> set p. length l = length zs))"

definition axis_ok :: "real list \<Rightarrow> bool" where
  "axis_ok g \<longleftrightarrow> 2 \<le> length g \<and> sorted_wrt (<) g"

definition RegularGridInterpolator ::
  "real list \<Rightarrow> real list \<Rightarrow> real list \<Rightarrow> tensor \<Rightarrow> error + interpolator" where
  "RegularGridInterpolator xs ys zs V =
     (if axis_ok xs \<and> axis_ok ys \<and> axis_ok zs \<and> grid_matches xs ys zs V
      then Inr \<lparr>grid_x = xs, grid_y = ys, grid_z = zs, grid_values = V\<rparr>
      else Inl InconsistentGridError)"

definition out_of_bounds :: "real list \<Rightarrow> real \<Rightarrow> bool" where
  "out_of_bounds g x = (case g of [] \<Rightarrow> True | a # _ \<Rightarrow> x < a \<or> last g < x)"

text \<open>The index of the cell that holds \<open>x\<close>: the number of axis values below \<open>x\<close>,
  less one, kept within \<open>0 .. length g - 2\<close>.\<close>

definition find_cell :: "real list \<Rightarrow> real \<Rightarrow> nat" where
  "find_cell g x = min (length (filter (\<lambda>v. v < x) g) - 1) (length g - 2)"

definition cell_fraction :: "real list \<Rightarrow> real \<Rightarrow> real" where
  "cell_fraction g x =
     (let i = find_cell g x in (x - g ! i) / (g ! (i + 1) - g ! i))"

definition mat_lerp :: "real \<Rightarrow> mat \<Rightarrow> mat \<Rightarrow> mat" where
  "mat_lerp t A B = map2 (\<lambda>ra rb. map2 (\<lambda>a b. (1 - t) * a + t * b) ra rb) A B"

definition interp_query :: "interpolator \<Rightarrow> real \<times> real \<times> real \<Rightarrow> error + mat" where
  "interp_query I pos =
     (case pos of (x, y, z) \<Rightarrow>
        if out_of_bounds (grid_x I) x \<or> out_of_bounds (grid_y I) y \<or> out_of_bounds (grid_z I) z
        then Inl OutOfBoundsError
        else
          let i = find_cell (grid_x I) x; j = find_cell (grid_y I) y; k = find_cell (grid_z I) z;
              tx = cell_fraction (grid_x I) x; ty = cell_fraction (grid_y I) y;
              tz = cell_fraction (grid_z I) z; V = grid_values I
          in Inr (mat_lerp tx
                   (mat_lerp ty (mat_lerp tz (V ! i ! j ! k) (V ! i ! j ! (k + 1)))
                                (mat_lerp tz (V ! i ! (j + 1) ! k) (V ! i ! (j + 1) ! (k + 1))))
                   (mat_lerp ty (mat_lerp tz (V ! (i + 1) ! j ! k) (V ! (i + 1) ! j ! (k + 1)))
                                (mat_lerp tz (V ! (i + 1) ! (j + 1) ! k)
                                             (V ! (i + 1) ! (j + 1) ! (k + 1))))))"

text \<open>The position of a query, in the two forms a caller passes it: a tuple of three
  coordinates, as the module's entry point does, or a list or one-dimensional array of
  three coordinates, as the docstrings of \<^verbatim>\<open>getBact\<close>, \<^verbatim>\<open>getDerMatrices\<close> and \<^verbatim>\<open>getA\<close>
  name it.\<close>

datatype position = PosTuple real real real | PosArray real real real

text \<open>A numpy array of dimension 0, 1, 2 or 3.\<close>

datatype ndarray = Scalar real | Vector "real list" | Matrix mat | Stack "mat list"

text \<open>The call \<^verbatim>\<open>interpolator(pos)\<close>. For a tuple the library returns the
  \<^verbatim>\<open>(3, Ncoils)\<close> array of the point; a list or one-dimensional array is read as an
  array of points, here of one point, and the result keeps a leading axis for the
  points: it has the shape \<^verbatim>\<open>(1, 3, Ncoils)\<close>.\<close>

definition interp_call :: "interpolator \<Rightarrow> position \<Rightarrow> error + ndarray" where
  "interp_call I pos =
     (case pos of
        PosTuple x y z \<Rightarrow>
          (case interp_query I (x, y, z) of Inl e \<Rightarrow> Inl e | Inr M \<Rightarrow> Inr (Matrix M))
      | PosArray x y z \<Rightarrow>
          (case interp_query I (x, y, z) of Inl e \<Rightarrow> Inl e | Inr M \<Rightarrow> Inr (Stack [M])))"

subsection \<open>The state of a \<^verbatim>\<open>magnetic_system\<close> object\<close>

record magnetic_system =
  Bs :: tensor
  coordinates :: "(real \<times> real \<times> real) list"
  Ncoils :: int
  xcoords :: "real list"
  deltax :: real
  xmin :: real
  xmax :: real
  ycoords :: "real list"
  deltay :: real
  ymin :: real
  ymax :: real
  zcoords :: "real list"
  deltaz :: real
  zmin :: real
  zmax :: real
  BactInterpolator :: interpolator
  Bx :: tensor
  By :: tensor
  Bz :: tensor
  BxInterpolator :: interpolator
  ByInterpolator :: interpolator
  BzInterpolator :: interpolator

text \<open>\<^verbatim>\<open>_compute_gradient_tensor\<close>: three passes, each on a fresh array of zeros that is
  assigned to the attribute before the loops fill it. An error leaves the object with
  the attributes written so far.\<close>

definition compute_gradient_tensor :: "magnetic_system \<Rightarrow> (error \<times> magnetic_system) + magnetic_system" where
  "compute_gradient_tensor s =
     (let Nx = shape0 (Bs s); Ny = shape1 (Bs s); Nz = shape2 (Bs s) in
      case fill_nodes Nx Ny Nz (dBdx_rhs (Bs s) (deltax s) Nx) (zeros_like (Bs s)) of
        Inl (e, D) \<Rightarrow> Inl (e, s\<lparr>Bx := D\<rparr>)
      | Inr D1 \<Rightarrow>
         (case fill_nodes Nx Ny Nz (dBdy_rhs (Bs s) (deltay s) Ny) (zeros_like (Bs s)) of
            Inl (e, D) \<Rightarrow> Inl (e, s\<lparr>Bx := D1, By := D\<rparr>)
          | Inr D2 \<Rightarrow>
             (case fill_nodes Nx Ny Nz (dBdz_rhs (Bs s) (deltaz s) Nz) (zeros_like (Bs s)) of
                Inl (e, D) \<Rightarrow> Inl (e, s\<lparr>Bx := D1, By := D2, Bz := D\<rparr>)
              | Inr D3 \<Rightarrow> Inr (s\<lparr>Bx := D1, By := D2, Bz := D3\<rparr>))))"


subsection \<open>Construction\<close>

text \<open>Python's \<^verbatim>\<open>round\<close> with one argument: the nearest integer, a tie going to the
  even one.\<close>

definition py_round :: "real \<Rightarrow> int" where
  "py_round x =
     (let f = \<lfloor>x\<rfloor>; r = x - of_int f
      in if r < 1 / 2 then f else if 1 / 2 < r then f + 1 else if even f then f else f + 1)"

text \<open>\<^verbatim>\<open>list(set([1e-6*round(1e6*c) for c in arr]))\<close>. The order in which the list
  holds the distinct values is not fixed by Python; every caller sorts it next.\<close>

definition extract_unique_vals_tol :: "real list \<Rightarrow> real list" where
  "extract_unique_vals_tol arr =
     remdups (map (\<lambda>c. (1 / 1000000) * of_int (py_round (1000000 * c))) arr)"

text \<open>The five statements \<^verbatim>\<open>__init__\<close> runs for each axis: extract, sort, spacing
  (\<^verbatim>\<open>cs[1]\<close> raises IndexError on fewer than two values), minimum and maximum.\<close>

definition axis_of :: "real list \<Rightarrow> error + (real list \<times> real \<times> real \<times> real)" where
  "axis_of col =
     (let cs = sort (extract_unique_vals_tol col)
      in if length cs < 2 then Inl IndexError
         else Inr (cs, cs ! 1 - cs ! 0, Min (set cs), Max (set cs)))"

definition scale_mm :: "real \<times> real \<times> real \<Rightarrow> real \<times> real \<times> real" where
  "scale_mm p = (case p of (x, y, z) \<Rightarrow> (x * (1 / 1000), y * (1 / 1000), z * (1 / 1000)))"

definition no_interpolator :: interpolator where
  "no_interpolator = \<lparr>grid_x = [], grid_y = [], grid_z = [], grid_values = []\<rparr>"

text \<open>
  \<^verbatim>\<open>__init__\<close>. Reading the calibration files is outside the model: \<open>ingested\<close> is the
  pair \<^verbatim>\<open>(Bs, coordinates)\<close> that \<^verbatim>\<open>get_magfield_data_comsol\<close> or
  \<^verbatim>\<open>get_magfield_data_sampled\<close> returns, a tensor of shape \<^verbatim>\<open>(Nx, Ny, Nz, 3, Ncoils)\<close>
  and one coordinate triple per sample. An exception leaves no object. The attributes
  that do not exist yet when \<^verbatim>\<open>_compute_gradient_tensor\<close> runs hold placeholders that
  nothing reads before they are assigned.
\<close>

definition init :: "tensor \<times> (real \<times> real \<times> real) list \<Rightarrow> int \<Rightarrow> string \<Rightarrow> error + magnetic_system" where
  "init ingested n posunit =
     (case ingested of (Bs0, coords0) \<Rightarrow>
      let coords = (if posunit = ''mm'' then map scale_mm coords0 else coords0) in
      case axis_of (map fst coords) of Inl e \<Rightarrow> Inl e | Inr (xs, dx, xlo, xhi) \<Rightarrow>
      (case axis_of (map (\<lambda>p. fst (snd p)) coords) of Inl e \<Rightarrow> Inl e | Inr (ys, dy, ylo, yhi) \<Rightarrow>
      (case axis_of (map (\<lambda>p. snd (snd p)) coords) of Inl e \<Rightarrow> Inl e | Inr (zs, dz, zlo, zhi) \<Rightarrow>
      (case RegularGridInterpolator xs ys zs Bs0 of Inl e \<Rightarrow> Inl e | Inr I \<Rightarrow>
      (case compute_gradient_tensor
              \<lparr>Bs = Bs0, coordinates = coords, Ncoils = n,
               xcoords = xs, deltax = dx, xmin = xlo, xmax = xhi,
               ycoords = ys, deltay = dy, ymin = ylo, ymax = yhi,
               zcoords = zs, deltaz = dz, zmin = zlo, zmax = zhi,
               BactInterpolator = I, Bx = [], By = [], Bz = [],
               BxInterpolator = no_interpolator, ByInterpolator = no_interpolator,
               BzInterpolator = no_interpolator\<rparr> of
         Inl (e, _) \<Rightarrow> Inl e
       | Inr s \<Rightarrow>
      (case RegularGridInterpolator xs ys zs (Bx s) of Inl e \<Rightarrow> Inl e | Inr Ix \<Rightarrow>
      (case RegularGridInterpolator xs ys zs (By s) of Inl e \<Rightarrow> Inl e | Inr Iy \<Rightarrow>
      (case RegularGridInterpolator xs ys zs (Bz s) of Inl e \<Rightarrow> Inl e | Inr Iz \<Rightarrow>
         Inr (s\<lparr>BxInterpolator := Ix, ByInterpolator := Iy, BzInterpolator := Iz\<rparr>)))))))))"

subsection \<open>Queries\<close>

definition getBact :: "magnetic_system \<Rightarrow> position \<Rightarrow> error + ndarray" where
  "getBact s pos = interp_call (BactInterpolator s) pos"

definition getDerMatrices :: "magnetic_system \<Rightarrow> position \<Rightarrow> error + (ndarray \<times> ndarray \<times> ndarray)" where
  "getDerMatrices s pos =
     (case interp_call (BxInterpolator s) pos of Inl e \<Rightarrow> Inl e | Inr dx \<Rightarrow>
     (case interp_call (ByInterpolator s) pos of Inl e \<Rightarrow> Inl e | Inr dy \<Rightarrow>
     (case interp_call (BzInterpolator s) pos of Inl e \<Rightarrow> Inl e | Inr dz \<Rightarrow>
        Inr (dx, dy, dz))))"

text \<open>\<^verbatim>\<open>m.dot(M)\<close> for a vector \<open>m\<close> and a matrix \<open>M\<close>: the sum over the first axis of
  \<open>M\<close>; numpy raises ValueError when the lengths differ.\<close>

definition ncols :: "mat \<Rightarrow> nat" where
  "ncols M = (case M of [] \<Rightarrow> 0 | r # _ \<Rightarrow> length r)"

definition vec_dot :: "real list \<Rightarrow> mat \<Rightarrow> error + real list" where
  "vec_dot m M =
     (if length m = length M
      then Inr (map (\<lambda>n. sum_list (map2 (\<lambda>a r. a * r ! n) m M)) [0..<ncols M])
      else Inl ValueError)"

text \<open>\<^verbatim>\<open>m.dot(A)\<close> for a vector \<open>m\<close> and an array \<open>A\<close> of any dimension: the sum runs over
  the last axis of \<open>A\<close> but one (over its only axis when \<open>A\<close> is a vector), so that the
  result has one dimension less than \<open>A\<close>; a scalar multiplies \<open>m\<close>.\<close>

definition nd_dot :: "real list \<Rightarrow> ndarray \<Rightarrow> error + ndarray" where
  "nd_dot m A =
     (case A of
        Scalar a \<Rightarrow> Inr (Vector (map (\<lambda>v. v * a) m))
      | Vector v \<Rightarrow>
          if length m = length v then Inr (Scalar (sum_list (map2 (\<lambda>a b. a * b) m v)))
          else Inl ValueError
      | Matrix M \<Rightarrow> (case vec_dot m M of Inl e \<Rightarrow> Inl e | Inr r \<Rightarrow> Inr (Vector r))
      | Stack Ms \<Rightarrow>
          if \<forall>M \<in> set Ms. length m = length M
          then Inr (Matrix (map (\<lambda>M. map (\<lambda>n. sum_list (map2 (\<lambda>a r. a * r ! n) m M))
                                     [0..<ncols M]) Ms))
          else Inl ValueError)"

text \<open>\<^verbatim>\<open>np.vstack\<close>: every array of dimension below 2 becomes a matrix of one row, and
  the arrays are joined along the first axis. numpy raises ValueError when the arrays do
  not all have the same dimension or differ in an axis after the first.\<close>

fun atleast_2d :: "ndarray \<Rightarrow> ndarray" where
  "atleast_2d (Scalar a) = Matrix [[a]]"
| "atleast_2d (Vector r) = Matrix [r]"
| "atleast_2d (Matrix M) = Matrix M"
| "atleast_2d (Stack Ms) = Stack Ms"

definition same_cols :: "mat \<Rightarrow> mat \<Rightarrow> bool" where
  "same_cols A B \<longleftrightarrow> (\<forall>r \<in> set A. \<forall>r' \<in> set B. length r = length r')"

fun concat_pair :: "ndarray \<Rightarrow> ndarray \<Rightarrow> error + ndarray" where
  "concat_pair (Vector a) (Vector b) = Inr (Vector (a @ b))"
| "concat_pair (Matrix A) (Matrix B) =
     (if same_cols A B then Inr (Matrix (A @ B)) else Inl ValueError)"
| "concat_pair (Stack A) (Stack B) =
     (if \<forall>M \<in> set A. \<forall>M' \<in> set B. length M = length M' \<and> same_cols M M'
      then Inr (Stack (A @ B)) else Inl ValueError)"
| "concat_pair _ _ = Inl ValueError"

fun concatenate :: "ndarray list \<Rightarrow> error + ndarray" where
  "concatenate [] = Inl ValueError"
| "concatenate [A] = (case A of Scalar _ \<Rightarrow> Inl ValueError | _ \<Rightarrow> Inr A)"
| "concatenate (A # B # As) =
     (case concatenate (B # As) of Inl e \<Rightarrow> Inl e | Inr C \<Rightarrow> concat_pair A C)"

definition vstack :: "ndarray list \<Rightarrow> error + ndarray" where
  "vstack As = concatenate (map atleast_2d As)"

text \<open>\<^verbatim>\<open>getA\<close>: \<^verbatim>\<open>np.vstack((Bact, m.dot(Bx), m.dot(By), m.dot(Bz)))\<close> on the results of
  \<^verbatim>\<open>getDerMatrices(pos)\<close> and \<^verbatim>\<open>getBact(pos)\<close>.\<close>

definition getA :: "magnetic_system \<Rightarrow> position \<Rightarrow> real list \<Rightarrow> error + ndarray" where
  "getA s pos m =
     (case getDerMatrices s pos of Inl e \<Rightarrow> Inl e | Inr (dx, dy, dz) \<Rightarrow>
     (case getBact s pos of Inl e \<Rightarrow> Inl e | Inr Bact \<Rightarrow>
     (case nd_dot m dx of Inl e \<Rightarrow> Inl e | Inr r1 \<Rightarrow>
     (case nd_dot m dy of Inl e \<Rightarrow> Inl e | Inr r2 \<Rightarrow>
     (case nd_dot m dz of Inl e \<Rightarrow> Inl e | Inr r3 \<Rightarrow>
        vstack [Bact, r1, r2, r3])))))"

subsection \<open>Coil permutation\<close>

text \<open>An index into an axis of length \<open>n\<close>, as Python and numpy read it: a negative
  index counts from the end, and an index outside \<open>-n .. n - 1\<close> raises IndexError.\<close>

definition py_index :: "nat \<Rightarrow> int \<Rightarrow> nat option" where
  "py_index n i =
     (if 0 \<le> i \<and> i < int n then Some (nat i)
      else if - int n \<le> i \<and> i < 0 then Some (nat (int n + i))
      else None)"

text \<open>\<^verbatim>\<open>T[:,:,:,:,idx] = S[:,:,:,:,c]\<close> for two arrays of one shape.\<close>

definition coil_slice_assign :: "tensor \<Rightarrow> nat \<Rightarrow> tensor \<Rightarrow> nat \<Rightarrow> tensor" where
  "coil_slice_assign T idx S c =
     map2 (map2 (map2 (map2 (\<lambda>row srow. row[idx := srow ! c])))) T S"

text \<open>The body of the loop of \<^verbatim>\<open>permutate_coils\<close>:
  \<^verbatim>\<open>Bs_temp[:,:,:,:,idx] = self.Bs[:,:,:,:,coilvec[idx]]\<close>. Each of the three subscripts
  raises IndexError out of range.\<close>

definition permute_step :: "tensor \<Rightarrow> int list \<Rightarrow> nat \<Rightarrow> tensor \<Rightarrow> (error \<times> tensor) + tensor" where
  "permute_step B coilvec idx Bs_temp =
     (if idx < length coilvec
      then (case py_index (shape4 B) (coilvec ! idx) of
              None \<Rightarrow> Inl (IndexError, Bs_temp)
            | Some c \<Rightarrow>
                if idx < shape4 Bs_temp then Inr (coil_slice_assign Bs_temp idx B c)
                else Inl (IndexError, Bs_temp))
      else Inl (IndexError, Bs_temp))"

text \<open>\<^verbatim>\<open>permutate_coils\<close>: the loop runs over \<^verbatim>\<open>range(0,6)\<close> on a copy of the tensor; the
  object changes only after the loop. The field interpolator is rebuilt and
  \<^verbatim>\<open>_compute_gradient_tensor\<close> is called; the three derivative interpolators are not
  assigned here.\<close>

definition permutate_coils :: "magnetic_system \<Rightarrow> int list \<Rightarrow> (error \<times> magnetic_system) + magnetic_system" where
  "permutate_coils s coilvec =
     (case for_loop [0..<6] (permute_step (Bs s) coilvec) (Bs s) of
        Inl (e, _) \<Rightarrow> Inl (e, s)
      | Inr Bs_temp \<Rightarrow>
          (case RegularGridInterpolator (xcoords s) (ycoords s) (zcoords s) Bs_temp of
             Inl e \<Rightarrow> Inl (e, s\<lparr>Bs := Bs_temp\<rparr>)
           | Inr I \<Rightarrow> compute_gradient_tensor (s\<lparr>Bs := Bs_temp, BactInterpolator := I\<rparr>)))"


subsection \<open>The difference quotient of the specification\<close>

text \<open>The spec's words for one direction with \<open>N\<close> nodes and spacing \<open>delta\<close>, where
  \<open>f a\<close> is the sample at index \<open>a\<close> along that direction: the forward difference at
  index 0, the backward difference at the last index, and at an interior index the
  difference of the two neighbours over the single spacing.\<close>

definition spec_difference :: "nat \<Rightarrow> (nat \<Rightarrow> real) \<Rightarrow> nat \<Rightarrow> real \<Rightarrow> real" where
  "spec_difference N f i delta =
     (if i = 0 then (f 1 - f 0) / delta
      else if i = N - 1 then (f i - f (i - 1)) / delta
      else (f (i + 1) - f (i - 1)) / delta)"

subsection \<open>A grid of 3 nodes per axis with a linear field\<close>

text \<open>One coil; the samples are given in millimetres at 0, 10 and 20 along each axis, and
  the field at a node is its position in metres: \<open>B = (x, y, z)\<close>, of slope 1 in every
  coordinate. \<open>linear_system\<close> is the object the constructor builds from these samples
  (lemma \<open>init_linear\<close>).\<close>

definition linear_field :: tensor where
  "linear_field =
     map (\<lambda>i. map (\<lambda>j. map (\<lambda>k. [[real i / 100], [real j / 100], [real k / 100]])
       [0..<3]) [0..<3]) [0..<3]"

definition linear_coords :: "(real \<times> real \<times> real) list" where
  "linear_coords =
     concat (map (\<lambda>i. concat (map (\<lambda>j. map (\<lambda>k. (10 * real i, 10 * real j, 10 * real k))
       [0..<3]) [0..<3])) [0..<3])"

definition linear_axis :: "real list" where
  "linear_axis = [0, 1 / 100, 2 / 100]"

definition linear_interpolator :: "tensor \<Rightarrow> interpolator" where
  "linear_interpolator V =
     \<lparr>grid_x = linear_axis, grid_y = linear_axis, grid_z = linear_axis, grid_values = V\<rparr>"

definition linear_slope :: "nat \<Rightarrow> real" where
  "linear_slope i = (if i = 1 then 2 else 1)"

definition linear_Bx :: tensor where
  "linear_Bx = map (\<lambda>i. map (\<lambda>j. map (\<lambda>k. [[linear_slope i], [0], [0]]) [0..<3]) [0..<3]) [0..<3]"

definition linear_By :: tensor where
  "linear_By = map (\<lambda>i. map (\<lambda>j. map (\<lambda>k. [[0], [linear_slope j], [0]]) [0..<3]) [0..<3]) [0..<3]"

definition linear_Bz :: tensor where
  "linear_Bz = map (\<lambda>i. map (\<lambda>j. map (\<lambda>k. [[0], [0], [linear_slope k]]) [0..<3]) [0..<3]) [0..<3]"

definition linear_system :: magnetic_system where
  "linear_system =
     \<lparr>Bs = linear_field, coordinates = map scale_mm linear_coords, Ncoils = 1,
      xcoords = linear_axis, deltax = 1 / 100, xmin = 0, xmax = 2 / 100,
      ycoords = linear_axis, deltay = 1 / 100, ymin = 0, ymax = 2 / 100,
      zcoords = linear_axis, deltaz = 1 / 100, zmin = 0, zmax = 2 / 100,
      BactInterpolator = linear_interpolator linear_field,
      Bx = linear_Bx, By = linear_By, Bz = linear_Bz,
      BxInterpolator = linear_interpolator linear_Bx,
      ByInterpolator = linear_interpolator linear_By,
      BzInterpolator = linear_interpolator linear_Bz\<rparr>"

subsection \<open>Systems the constructor builds\<close>

text \<open>What holds of every object after \<^verbatim>\<open>__init__\<close> (lemma \<open>init_result\<close>), for a tensor
  of \<open>N\<close> coils: the axes are strictly increasing with at least two values, the bounds
  are their least and greatest values, the field interpolator is bound to the axes and
  to \<open>Bs\<close>, and every derivative interpolator is bound to the axes and to a tensor of the
  shape of \<open>Bs\<close>.\<close>

definition bound_to :: "nat \<Rightarrow> magnetic_system \<Rightarrow> interpolator \<Rightarrow> bool" where
  "bound_to N s I \<longleftrightarrow>
     grid_x I = xcoords s \<and> grid_y I = ycoords s \<and> grid_z I = zcoords s \<and>
     is_shape (length (xcoords s)) (length (ycoords s)) (length (zcoords s)) 3 N (grid_values I)"

definition wf_system :: "nat \<Rightarrow> magnetic_system \<Rightarrow> bool" where
  "wf_system N s \<longleftrightarrow>
     axis_ok (xcoords s) \<and> axis_ok (ycoords s) \<and> axis_ok (zcoords s) \<and>
     xmin s = Min (set (xcoords s)) \<and> xmax s = Max (set (xcoords s)) \<and>
     ymin s = Min (set (ycoords s)) \<and> ymax s = Max (set (ycoords s)) \<and>
     zmin s = Min (set (zcoords s)) \<and> zmax s = Max (set (zcoords s)) \<and>
     bound_to N s (BactInterpolator s) \<and> grid_values (BactInterpolator s) = Bs s \<and>
     bound_to N s (BxInterpolator s) \<and> bound_to N s (ByInterpolator s) \<and>
     bound_to N s (BzInterpolator s)"

text \<open>A position inside the box of the grid, bounds included.\<close>

definition in_box :: "magnetic_system \<Rightarrow> real \<times> real \<times> real \<Rightarrow> bool" where
  "in_box s pos =
     (case pos of (x, y, z) \<Rightarrow>
        xmin s \<le> x \<and> x \<le> xmax s \<and> ymin s \<le> y \<and> y \<le> ymax s \<and> zmin s \<le> z \<and> z \<le> zmax s)"

text \<open>The spec's words for a row of the extended matrix: the dipole moment, of length 3,
  contracted against the first axis of a \<^verbatim>\<open>(3, Ncoils)\<close> matrix.\<close>

definition spec_contract :: "nat \<Rightarrow> real list \<Rightarrow> mat \<Rightarrow> real list" where
  "spec_contract N m M =
     map (\<lambda>n. m ! 0 * M ! 0 ! n + m ! 1 * M ! 1 ! n + m ! 2 * M ! 2 ! n) [0..<N]"

text \<open>\<open>coilvec\<close> is a permutation of \<open>0 .. N - 1\<close>.\<close>

definition is_permutation :: "nat \<Rightarrow> int list \<Rightarrow> bool" where
  "is_permutation N coilvec \<longleftrightarrow> sort coilvec = map int [0..<N]"

text \<open>The loop body of \<^verbatim>\<open>permutate_coils\<close> raises nothing at index \<open>a\<close>, on a tensor
  of \<open>n4\<close> coils: \<open>coilvec[a]\<close> exists and is an index of the coil axis, and so is \<open>a\<close>.\<close>

definition step_ok :: "nat \<Rightarrow> int list \<Rightarrow> nat \<Rightarrow> bool" where
  "step_ok n4 coilvec a \<longleftrightarrow> a < length coilvec \<and> a < n4 \<and> - int n4 \<le> coilvec ! a \<and> coilvec ! a < int n4"

subsection \<open>A grid of 2 nodes per axis with several coils\<close>

text \<open>The nodes are at 0 and 0.01 m along each axis. Coil \<open>n\<close> has the weight \<open>w ! n\<close>
  and the field \<open>w ! n * (x, y, z)\<close>, so that its derivative along each axis is its
  weight. \<open>coil_system w v\<close> is the object whose field tensor and derivative tensors are
  those of the weights \<open>w\<close> and whose derivative interpolators are bound to the
  derivative tensors of the weights \<open>v\<close>; the constructor builds \<open>coil_system w w\<close>
  (lemmas \<open>init_six\<close> and \<open>init_three\<close>).\<close>

definition coil_field :: "real list \<Rightarrow> tensor" where
  "coil_field w =
     map (\<lambda>i. map (\<lambda>j. map (\<lambda>k.
       [map (\<lambda>a. a * real i / 100) w, map (\<lambda>a. a * real j / 100) w, map (\<lambda>a. a * real k / 100) w])
       [0..<2]) [0..<2]) [0..<2]"

definition coil_coords :: "(real \<times> real \<times> real) list" where
  "coil_coords =
     concat (map (\<lambda>i. concat (map (\<lambda>j. map (\<lambda>k. (real i / 100, real j / 100, real k / 100))
       [0..<2]) [0..<2])) [0..<2])"

definition coil_axis :: "real list" where
  "coil_axis = [0, 1 / 100]"

definition coil_interpolator :: "tensor \<Rightarrow> interpolator" where
  "coil_interpolator V =
     \<lparr>grid_x = coil_axis, grid_y = coil_axis, grid_z = coil_axis, grid_values = V\<rparr>"

definition coil_Bx :: "real list \<Rightarrow> tensor" where
  "coil_Bx w = map (\<lambda>i. map (\<lambda>j. map (\<lambda>k. [w, map (\<lambda>a. 0) w, map (\<lambda>a. 0) w]) [0..<2]) [0..<2]) [0..<2]"

definition coil_By :: "real list \<Rightarrow> tensor" where
  "coil_By w = map (\<lambda>i. map (\<lambda>j. map (\<lambda>k. [map (\<lambda>a. 0) w, w, map (\<lambda>a. 0) w]) [0..<2]) [0..<2]) [0..<2]"

definition coil_Bz :: "real list \<Rightarrow> tensor" where
  "coil_Bz w = map (\<lambda>i. map (\<lambda>j. map (\<lambda>k. [map (\<lambda>a. 0) w, map (\<lambda>a. 0) w, w]) [0..<2]) [0..<2]) [0..<2]"

definition coil_system :: "real list \<Rightarrow> real list \<Rightarrow> magnetic_system" where
  "coil_system w v =
     \<lparr>Bs = coil_field w, coordinates = coil_coords, Ncoils = int (length w),
      xcoords = coil_axis, deltax = 1 / 100, xmin = 0, xmax = 1 / 100,
      ycoords = coil_axis, deltay = 1 / 100, ymin = 0, ymax = 1 / 100,
      zcoords = coil_axis, deltaz = 1 / 100, zmin = 0, zmax = 1 / 100,
      BactInterpolator = coil_interpolator (coil_field w),
      Bx = coil_Bx w, By = coil_By w, Bz = coil_Bz w,
      BxInterpolator = coil_interpolator (coil_Bx v),
      ByInterpolator = coil_interpolator (coil_By v),
      BzInterpolator = coil_interpolator (coil_Bz v)\<rparr>"

definition six_coils :: "real list" where
  "six_coils = [1, 2, 3, 4, 5, 6]"

definition three_coils :: "real list" where
  "three_coils = [1, 2, 3]"

section \<open>Loops\<close>

lemma for_loop_append:
  "for_loop (xs @ ys) body s =
     (case for_loop xs body s of Inl e \<Rightarrow> Inl e | Inr s' \<Rightarrow> for_loop ys body s')"
  by (induction xs arbitrary: s) (auto split: sum.splits)

lemma for_loop_upt_Suc:
  "for_loop [0..<Suc m] body s =
     (case for_loop [0..<m] body s of Inl e \<Rightarrow> Inl e | Inr s' \<Rightarrow> body m s')"
  by (simp add: for_loop_append split: sum.splits)

lemma prefix_update:
  "m < length L \<Longrightarrow> (map f [0..<m] @ drop m L)[m := f m] = map f [0..<Suc m] @ drop (Suc m) L"
  by (simp add: list_update_append upd_conv_take_nth_drop Cons_nth_drop_Suc)

lemma fill_inner:
  assumes "nx < length D" "ny < length (D ! nx)" "m \<le> length (D ! nx ! ny)"
    and "\<And>k. k < m \<Longrightarrow> rhs nx ny k = Some (val k)"
  shows "for_loop [0..<m] (store_node rhs nx ny) D =
           Inr (D[nx := (D ! nx)[ny := map val [0..<m] @ drop m (D ! nx ! ny)]])"
  using assms(3,4)
proof (induction m)
  case 0
  then show ?case by (simp add: assms)
next
  case (Suc m)
  have m: "m < length (D ! nx ! ny)" using Suc.prems by simp
  have IH: "for_loop [0..<m] (store_node rhs nx ny) D =
           Inr (D[nx := (D ! nx)[ny := map val [0..<m] @ drop m (D ! nx ! ny)]])"
    using Suc by simp
  have r: "rhs nx ny m = Some (val m)" using Suc.prems by simp
  show ?case
    unfolding for_loop_upt_Suc IH
    using assms(1,2) m r prefix_update[OF m, of val]
    by (simp add: store_node_def set_node_def del: upt_Suc)
qed


lemma fill_inner_full:
  assumes "nx < length D" "ny < length (D ! nx)" "length (D ! nx ! ny) = Nz"
    and "\<And>k. k < Nz \<Longrightarrow> rhs nx ny k = Some (val k)"
  shows "for_loop [0..<Nz] (store_node rhs nx ny) D =
           Inr (D[nx := (D ! nx)[ny := map val [0..<Nz]]])"
  using fill_inner[of nx D ny Nz rhs val] assms by simp

lemma fill_middle:
  assumes "nx < length D" "m \<le> length (D ! nx)"
    and "\<And>j. j < length (D ! nx) \<Longrightarrow> length (D ! nx ! j) = Nz"
    and "\<And>j k. j < m \<Longrightarrow> k < Nz \<Longrightarrow> rhs nx j k = Some (val j k)"
  shows "for_loop [0..<m] (\<lambda>ny. for_loop [0..<Nz] (store_node rhs nx ny)) D =
           Inr (D[nx := map (\<lambda>j. map (val j) [0..<Nz]) [0..<m] @ drop m (D ! nx)])"
  using assms(2,4)
proof (induction m)
  case 0
  then show ?case by (simp add: assms)
next
  case (Suc m)
  let ?D1 = "D[nx := map (\<lambda>j. map (val j) [0..<Nz]) [0..<m] @ drop m (D ! nx)]"
  have m: "m < length (D ! nx)" using Suc.prems by simp
  have IH: "for_loop [0..<m] (\<lambda>ny. for_loop [0..<Nz] (store_node rhs nx ny)) D = Inr ?D1"
    using Suc by simp
  have l: "length (?D1 ! nx ! m) = Nz" using assms(1,3) m by (simp add: nth_append)
  have inner: "for_loop [0..<Nz] (store_node rhs nx m) ?D1 =
      Inr (?D1[nx := (?D1 ! nx)[m := map (val m) [0..<Nz]]])"
    by (rule fill_inner_full) (use assms(1) m l Suc.prems in simp_all)
  show ?case
    unfolding for_loop_upt_Suc IH
    using assms(1) m prefix_update[OF m, of "\<lambda>j. map (val j) [0..<Nz]"]
    by (simp add: inner del: upt_Suc)
qed

lemma fill_outer:
  assumes "m \<le> length D"
    and "\<And>i. i < length D \<Longrightarrow> length (D ! i) = Ny"
    and "\<And>i j. i < length D \<Longrightarrow> j < Ny \<Longrightarrow> length (D ! i ! j) = Nz"
    and "\<And>i j k. i < m \<Longrightarrow> j < Ny \<Longrightarrow> k < Nz \<Longrightarrow> rhs i j k = Some (val i j k)"
  shows "for_loop [0..<m] (\<lambda>nx. for_loop [0..<Ny] (\<lambda>ny. for_loop [0..<Nz] (store_node rhs nx ny))) D =
           Inr (map (\<lambda>i. map (\<lambda>j. map (val i j) [0..<Nz]) [0..<Ny]) [0..<m] @ drop m D)"
  using assms(1,4)
proof (induction m)
  case 0
  then show ?case by simp
next
  case (Suc m)
  let ?f = "\<lambda>i. map (\<lambda>j. map (val i j) [0..<Nz]) [0..<Ny]"
  let ?D1 = "map ?f [0..<m] @ drop m D"
  have m: "m < length D" using Suc.prems by simp
  have IH: "for_loop [0..<m] (\<lambda>nx. for_loop [0..<Ny] (\<lambda>ny. for_loop [0..<Nz] (store_node rhs nx ny))) D = Inr ?D1"
    using Suc by simp
  have D1m: "?D1 ! m = D ! m" using m by (simp add: nth_append)
  have mid: "for_loop [0..<Ny] (\<lambda>ny. for_loop [0..<Nz] (store_node rhs m ny)) ?D1 =
      Inr (?D1[m := map (\<lambda>j. map (val m j) [0..<Nz]) [0..<Ny] @ drop Ny (?D1 ! m)])"
    by (rule fill_middle) (use m D1m assms(2,3) Suc.prems in simp_all)
  show ?case
    unfolding for_loop_upt_Suc IH
    using m prefix_update[OF m, of ?f] assms(2)
    by (simp add: mid D1m del: upt_Suc)
qed


lemma fill_nodes_total:
  assumes "length D = Nx"
    and "\<And>i. i < Nx \<Longrightarrow> length (D ! i) = Ny"
    and "\<And>i j. i < Nx \<Longrightarrow> j < Ny \<Longrightarrow> length (D ! i ! j) = Nz"
    and "\<And>i j k. i < Nx \<Longrightarrow> j < Ny \<Longrightarrow> k < Nz \<Longrightarrow> rhs i j k = Some (val i j k)"
  shows "fill_nodes Nx Ny Nz rhs D =
           Inr (map (\<lambda>i. map (\<lambda>j. map (val i j) [0..<Nz]) [0..<Ny]) [0..<Nx])"
  unfolding fill_nodes_def
  using fill_outer[of Nx D Ny Nz rhs val] assms by simp

lemma is_shape_len0: "is_shape n0 n1 n2 n3 n4 T \<Longrightarrow> length T = n0"
  unfolding is_shape_def by simp

lemma is_shape_len1: "is_shape n0 n1 n2 n3 n4 T \<Longrightarrow> i < n0 \<Longrightarrow> length (T ! i) = n1"
  unfolding is_shape_def by (auto simp: all_set_conv_all_nth)

lemma is_shape_len2:
  "is_shape n0 n1 n2 n3 n4 T \<Longrightarrow> i < n0 \<Longrightarrow> j < n1 \<Longrightarrow> length (T ! i ! j) = n2"
  unfolding is_shape_def by (auto simp: all_set_conv_all_nth)

lemma is_shape_mat:
  "is_shape n0 n1 n2 n3 n4 T \<Longrightarrow> i < n0 \<Longrightarrow> j < n1 \<Longrightarrow> k < n2 \<Longrightarrow> is_mat n3 n4 (T ! i ! j ! k)"
  unfolding is_shape_def by (auto simp: all_set_conv_all_nth)

lemma is_shape_zeros_like:
  "is_shape n0 n1 n2 n3 n4 T \<Longrightarrow> is_shape n0 n1 n2 n3 n4 (zeros_like T)"
  unfolding is_shape_def zeros_like_def is_mat_def by auto

lemma is_shape_shapes:
  assumes "is_shape n0 n1 n2 n3 n4 T" "0 < n0" "0 < n1"
  shows "shape0 T = n0" "shape1 T = n1" "shape2 T = n2"
  using assms unfolding is_shape_def shape0_def shape1_def shape2_def
  by (auto split: list.splits)

lemma node_Some:
  assumes "is_shape n0 n1 n2 n3 n4 T" "i < n0" "j < n1" "k < n2"
  shows "node T i j k = Some (T ! i ! j ! k)"
  using assms by (simp add: node_def is_shape_len0 is_shape_len1 is_shape_len2)

lemma mat_diffq_nth:
  assumes "is_mat n3 n4 A" "is_mat n3 n4 B" "c < n3" "n < n4"
  shows "mat_diffq A B delta ! c ! n = (A ! c ! n - B ! c ! n) / delta"
  using assms unfolding is_mat_def mat_diffq_def by simp

lemma is_mat_diffq:
  assumes "is_mat n3 n4 A" "is_mat n3 n4 B"
  shows "is_mat n3 n4 (mat_diffq A B delta)"
  using assms unfolding is_mat_def mat_diffq_def by (auto simp: set_zip)

lemma is_shape_tabulate:
  assumes "\<And>i j k. i < n0 \<Longrightarrow> j < n1 \<Longrightarrow> k < n2 \<Longrightarrow> is_mat n3 n4 (val i j k)"
  shows "is_shape n0 n1 n2 n3 n4 (map (\<lambda>i. map (\<lambda>j. map (val i j) [0..<n2]) [0..<n1]) [0..<n0])"
  using assms unfolding is_shape_def by auto

section \<open>The gradient tensor\<close>

lemma dBdx_pass:
  assumes sh: "is_shape Nx Ny Nz n3 n4 B" and N: "2 \<le> Nx"
  shows "\<exists>D. fill_nodes Nx Ny Nz (dBdx_rhs B delta Nx) (zeros_like B) = Inr D \<and>
           is_shape Nx Ny Nz n3 n4 D \<and>
           (\<forall>i<Nx. \<forall>j<Ny. \<forall>k<Nz. \<forall>c<n3. \<forall>n<n4.
              D ! i ! j ! k ! c ! n = spec_difference Nx (\<lambda>a. B ! a ! j ! k ! c ! n) i delta)"
proof -
  define val where "val i j k =
     (if i = 0 then mat_diffq (B ! (i + 1) ! j ! k) (B ! i ! j ! k) delta
      else if i = Nx - 1 then mat_diffq (B ! i ! j ! k) (B ! (i - 1) ! j ! k) delta
      else mat_diffq (B ! (i + 1) ! j ! k) (B ! (i - 1) ! j ! k) delta)" for i j k
  let ?D = "map (\<lambda>i. map (\<lambda>j. map (val i j) [0..<Nz]) [0..<Ny]) [0..<Nx]"
  have rhs: "dBdx_rhs B delta Nx i j k = Some (val i j k)" if "i < Nx" "j < Ny" "k < Nz" for i j k
    using that N by (auto simp: dBdx_rhs_def val_def diffq_def node_Some[OF sh])
  have z: "is_shape Nx Ny Nz n3 n4 (zeros_like B)" by (rule is_shape_zeros_like[OF sh])
  have run: "fill_nodes Nx Ny Nz (dBdx_rhs B delta Nx) (zeros_like B) = Inr ?D"
    by (rule fill_nodes_total) (use is_shape_len0[OF z] is_shape_len1[OF z] is_shape_len2[OF z] rhs in auto)
  have m: "is_mat n3 n4 (val i j k)" if "i < Nx" "j < Ny" "k < Nz" for i j k
    using that N is_shape_mat[OF sh] by (auto simp: val_def intro!: is_mat_diffq)
  have shp: "is_shape Nx Ny Nz n3 n4 ?D" by (rule is_shape_tabulate) (rule m)
  have el: "?D ! i ! j ! k ! c ! n = spec_difference Nx (\<lambda>a. B ! a ! j ! k ! c ! n) i delta"
    if "i < Nx" "j < Ny" "k < Nz" "c < n3" "n < n4" for i j k c n
    using that N is_shape_mat[OF sh]
    by (auto simp: val_def spec_difference_def mat_diffq_nth[where ?n3.0=n3 and ?n4.0=n4])
  show ?thesis using run shp el by blast
qed

lemma dBdy_pass:
  assumes sh: "is_shape Nx Ny Nz n3 n4 B" and N: "2 \<le> Ny"
  shows "\<exists>D. fill_nodes Nx Ny Nz (dBdy_rhs B delta Ny) (zeros_like B) = Inr D \<and>
           is_shape Nx Ny Nz n3 n4 D \<and>
           (\<forall>i<Nx. \<forall>j<Ny. \<forall>k<Nz. \<forall>c<n3. \<forall>n<n4.
              D ! i ! j ! k ! c ! n = spec_difference Ny (\<lambda>a. B ! i ! a ! k ! c ! n) j delta)"
proof -
  define val where "val i j k =
     (if j = 0 then mat_diffq (B ! i ! (j + 1) ! k) (B ! i ! j ! k) delta
      else if j = Ny - 1 then mat_diffq (B ! i ! j ! k) (B ! i ! (j - 1) ! k) delta
      else mat_diffq (B ! i ! (j + 1) ! k) (B ! i ! (j - 1) ! k) delta)" for i j k
  let ?D = "map (\<lambda>i. map (\<lambda>j. map (val i j) [0..<Nz]) [0..<Ny]) [0..<Nx]"
  have rhs: "dBdy_rhs B delta Ny i j k = Some (val i j k)" if "i < Nx" "j < Ny" "k < Nz" for i j k
    using that N by (auto simp: dBdy_rhs_def val_def diffq_def node_Some[OF sh])
  have z: "is_shape Nx Ny Nz n3 n4 (zeros_like B)" by (rule is_shape_zeros_like[OF sh])
  have run: "fill_nodes Nx Ny Nz (dBdy_rhs B delta Ny) (zeros_like B) = Inr ?D"
    by (rule fill_nodes_total) (use is_shape_len0[OF z] is_shape_len1[OF z] is_shape_len2[OF z] rhs in auto)
  have m: "is_mat n3 n4 (val i j k)" if "i < Nx" "j < Ny" "k < Nz" for i j k
    using that N is_shape_mat[OF sh] by (auto simp: val_def intro!: is_mat_diffq)
  have shp: "is_shape Nx Ny Nz n3 n4 ?D" by (rule is_shape_tabulate) (rule m)
  have el: "?D ! i ! j ! k ! c ! n = spec_difference Ny (\<lambda>a. B ! i ! a ! k ! c ! n) j delta"
    if "i < Nx" "j < Ny" "k < Nz" "c < n3" "n < n4" for i j k c n
    using that N is_shape_mat[OF sh]
    by (auto simp: val_def spec_difference_def mat_diffq_nth[where ?n3.0=n3 and ?n4.0=n4])
  show ?thesis using run shp el by blast
qed

lemma dBdz_pass:
  assumes sh: "is_shape Nx Ny Nz n3 n4 B" and N: "2 \<le> Nz"
  shows "\<exists>D. fill_nodes Nx Ny Nz (dBdz_rhs B delta Nz) (zeros_like B) = Inr D \<and>
           is_shape Nx Ny Nz n3 n4 D \<and>
           (\<forall>i<Nx. \<forall>j<Ny. \<forall>k<Nz. \<forall>c<n3. \<forall>n<n4.
              D ! i ! j ! k ! c ! n = spec_difference Nz (\<lambda>a. B ! i ! j ! a ! c ! n) k delta)"
proof -
  define val where "val i j k =
     (if k = 0 then mat_diffq (B ! i ! j ! (k + 1)) (B ! i ! j ! k) delta
      else if k = Nz - 1 then mat_diffq (B ! i ! j ! k) (B ! i ! j ! (k - 1)) delta
      else mat_diffq (B ! i ! j ! (k + 1)) (B ! i ! j ! (k - 1)) delta)" for i j k
  let ?D = "map (\<lambda>i. map (\<lambda>j. map (val i j) [0..<Nz]) [0..<Ny]) [0..<Nx]"
  have rhs: "dBdz_rhs B delta Nz i j k = Some (val i j k)" if "i < Nx" "j < Ny" "k < Nz" for i j k
    using that N by (auto simp: dBdz_rhs_def val_def diffq_def node_Some[OF sh])
  have z: "is_shape Nx Ny Nz n3 n4 (zeros_like B)" by (rule is_shape_zeros_like[OF sh])
  have run: "fill_nodes Nx Ny Nz (dBdz_rhs B delta Nz) (zeros_like B) = Inr ?D"
    by (rule fill_nodes_total) (use is_shape_len0[OF z] is_shape_len1[OF z] is_shape_len2[OF z] rhs in auto)
  have m: "is_mat n3 n4 (val i j k)" if "i < Nx" "j < Ny" "k < Nz" for i j k
    using that N is_shape_mat[OF sh] by (auto simp: val_def intro!: is_mat_diffq)
  have shp: "is_shape Nx Ny Nz n3 n4 ?D" by (rule is_shape_tabulate) (rule m)
  have el: "?D ! i ! j ! k ! c ! n = spec_difference Nz (\<lambda>a. B ! i ! j ! a ! c ! n) k delta"
    if "i < Nx" "j < Ny" "k < Nz" "c < n3" "n < n4" for i j k c n
    using that N is_shape_mat[OF sh]
    by (auto simp: val_def spec_difference_def mat_diffq_nth[where ?n3.0=n3 and ?n4.0=n4])
  show ?thesis using run shp el by blast
qed


lemma compute_gradient_tensor_result:
  assumes sh: "is_shape Nx Ny Nz n3 n4 (Bs s)"
    and N: "2 \<le> Nx" "2 \<le> Ny" "2 \<le> Nz"
  shows "\<exists>Dx Dy Dz. compute_gradient_tensor s = Inr (s\<lparr>Bx := Dx, By := Dy, Bz := Dz\<rparr>) \<and>
           is_shape Nx Ny Nz n3 n4 Dx \<and> is_shape Nx Ny Nz n3 n4 Dy \<and> is_shape Nx Ny Nz n3 n4 Dz \<and>
           (\<forall>i<Nx. \<forall>j<Ny. \<forall>k<Nz. \<forall>c<n3. \<forall>n<n4.
              Dx ! i ! j ! k ! c ! n = spec_difference Nx (\<lambda>a. Bs s ! a ! j ! k ! c ! n) i (deltax s) \<and>
              Dy ! i ! j ! k ! c ! n = spec_difference Ny (\<lambda>a. Bs s ! i ! a ! k ! c ! n) j (deltay s) \<and>
              Dz ! i ! j ! k ! c ! n = spec_difference Nz (\<lambda>a. Bs s ! i ! j ! a ! c ! n) k (deltaz s))"
proof -
  have shapes: "shape0 (Bs s) = Nx" "shape1 (Bs s) = Ny" "shape2 (Bs s) = Nz"
    using is_shape_shapes[OF sh] N by simp_all
  obtain Dx where Dx: "fill_nodes Nx Ny Nz (dBdx_rhs (Bs s) (deltax s) Nx) (zeros_like (Bs s)) = Inr Dx"
      "is_shape Nx Ny Nz n3 n4 Dx"
      "\<forall>i<Nx. \<forall>j<Ny. \<forall>k<Nz. \<forall>c<n3. \<forall>n<n4.
         Dx ! i ! j ! k ! c ! n = spec_difference Nx (\<lambda>a. Bs s ! a ! j ! k ! c ! n) i (deltax s)"
    using dBdx_pass[OF sh N(1), of "deltax s"] by blast
  obtain Dy where Dy: "fill_nodes Nx Ny Nz (dBdy_rhs (Bs s) (deltay s) Ny) (zeros_like (Bs s)) = Inr Dy"
      "is_shape Nx Ny Nz n3 n4 Dy"
      "\<forall>i<Nx. \<forall>j<Ny. \<forall>k<Nz. \<forall>c<n3. \<forall>n<n4.
         Dy ! i ! j ! k ! c ! n = spec_difference Ny (\<lambda>a. Bs s ! i ! a ! k ! c ! n) j (deltay s)"
    using dBdy_pass[OF sh N(2), of "deltay s"] by blast
  obtain Dz where Dz: "fill_nodes Nx Ny Nz (dBdz_rhs (Bs s) (deltaz s) Nz) (zeros_like (Bs s)) = Inr Dz"
      "is_shape Nx Ny Nz n3 n4 Dz"
      "\<forall>i<Nx. \<forall>j<Ny. \<forall>k<Nz. \<forall>c<n3. \<forall>n<n4.
         Dz ! i ! j ! k ! c ! n = spec_difference Nz (\<lambda>a. Bs s ! i ! j ! a ! c ! n) k (deltaz s)"
    using dBdz_pass[OF sh N(3), of "deltaz s"] by blast
  have run: "compute_gradient_tensor s = Inr (s\<lparr>Bx := Dx, By := Dy, Bz := Dz\<rparr>)"
    by (simp add: compute_gradient_tensor_def shapes Dx(1) Dy(1) Dz(1))
  show ?thesis
  proof (intro exI conjI)
    show "compute_gradient_tensor s = Inr (s\<lparr>Bx := Dx, By := Dy, Bz := Dz\<rparr>)" by (rule run)
  qed (use Dx(2,3) Dy(2,3) Dz(2,3) in simp_all)
qed

section \<open>The linear grid\<close>

lemma upt3: "[0..<3] = [0, 1, 2]"
  by (simp add: upt_rec)

lemma linear_axes:
  "axis_of (map fst (map scale_mm linear_coords)) = Inr (linear_axis, 1 / 100, 0, 2 / 100)"
  "axis_of (map (\<lambda>p. fst (snd p)) (map scale_mm linear_coords)) = Inr (linear_axis, 1 / 100, 0, 2 / 100)"
  "axis_of (map (\<lambda>p. snd (snd p)) (map scale_mm linear_coords)) = Inr (linear_axis, 1 / 100, 0, 2 / 100)"
  by (simp_all add: axis_of_def linear_coords_def linear_axis_def scale_mm_def upt3
        extract_unique_vals_tol_def py_round_def)

lemma linear_gradient:
  "compute_gradient_tensor (s\<lparr>Bs := linear_field, deltax := 1 / 100, deltay := 1 / 100, deltaz := 1 / 100\<rparr>) =
     Inr (s\<lparr>Bs := linear_field, deltax := 1 / 100, deltay := 1 / 100, deltaz := 1 / 100,
            Bx := linear_Bx, By := linear_By, Bz := linear_Bz\<rparr>)"
  by (simp add: compute_gradient_tensor_def linear_field_def linear_Bx_def linear_By_def
        linear_Bz_def linear_slope_def upt3 shape0_def shape1_def shape2_def fill_nodes_def
        store_node_def dBdx_rhs_def dBdy_rhs_def dBdz_rhs_def diffq_def node_def set_node_def
        zeros_like_def mat_diffq_def)

lemma linear_interpolators:
  "RegularGridInterpolator linear_axis linear_axis linear_axis linear_field = Inr (linear_interpolator linear_field)"
  "RegularGridInterpolator linear_axis linear_axis linear_axis linear_Bx = Inr (linear_interpolator linear_Bx)"
  "RegularGridInterpolator linear_axis linear_axis linear_axis linear_By = Inr (linear_interpolator linear_By)"
  "RegularGridInterpolator linear_axis linear_axis linear_axis linear_Bz = Inr (linear_interpolator linear_Bz)"
  by (simp_all add: RegularGridInterpolator_def axis_ok_def grid_matches_def linear_axis_def
        linear_interpolator_def linear_field_def linear_Bx_def linear_By_def linear_Bz_def upt3)

lemma init_linear: "init (linear_field, linear_coords) 1 ''mm'' = Inr linear_system"
  using linear_gradient[of "\<lparr>Bs = linear_field, coordinates = map scale_mm linear_coords, Ncoils = 1,
               xcoords = linear_axis, deltax = 1 / 100, xmin = 0, xmax = 2 / 100,
               ycoords = linear_axis, deltay = 1 / 100, ymin = 0, ymax = 2 / 100,
               zcoords = linear_axis, deltaz = 1 / 100, zmin = 0, zmax = 2 / 100,
               BactInterpolator = linear_interpolator linear_field, Bx = [], By = [], Bz = [],
               BxInterpolator = no_interpolator, ByInterpolator = no_interpolator,
               BzInterpolator = no_interpolator\<rparr>"]
  by (simp add: init_def Let_def linear_axes linear_interpolators linear_system_def del: map_map)

lemma linear_shape: "is_shape 3 3 3 3 1 linear_field"
  by (simp add: is_shape_def is_mat_def linear_field_def upt3)

section \<open>Interpolation\<close>

lemma axis_ok_sorted: "axis_ok g \<Longrightarrow> sorted g"
  unfolding axis_ok_def by (simp add: strict_sorted_imp_sorted)

lemma axis_ok_nth_less: "axis_ok g \<Longrightarrow> i < j \<Longrightarrow> j < length g \<Longrightarrow> g ! i < g ! j"
  unfolding axis_ok_def by (simp add: sorted_wrt_nth_less)

lemma axis_ok_Min: "axis_ok g \<Longrightarrow> Min (set g) = g ! 0"
proof -
  assume a: "axis_ok g"
  then have l: "0 < length g" by (cases g) (auto simp: axis_ok_def)
  show ?thesis
  proof (rule Min_eqI)
    show "finite (set g)" by simp
    show "g ! 0 \<in> set g" using l by simp
    fix y assume "y \<in> set g"
    then obtain i where "i < length g" "y = g ! i" by (auto simp: in_set_conv_nth)
    then show "g ! 0 \<le> y" using axis_ok_sorted[OF a] by (simp add: sorted_iff_nth_mono)
  qed
qed

lemma axis_ok_Max: "axis_ok g \<Longrightarrow> Max (set g) = last g"
proof -
  assume a: "axis_ok g"
  then have l: "g \<noteq> []" by (cases g) (auto simp: axis_ok_def)
  show ?thesis
  proof (rule Max_eqI)
    show "finite (set g)" by simp
    show "last g \<in> set g" using l by simp
    fix y assume "y \<in> set g"
    then obtain i where "i < length g" "y = g ! i" by (auto simp: in_set_conv_nth)
    then show "y \<le> last g" using axis_ok_sorted[OF a] l
      by (simp add: sorted_iff_nth_mono last_conv_nth)
  qed
qed

lemma out_of_bounds_iff:
  assumes "axis_ok g"
  shows "out_of_bounds g x \<longleftrightarrow> x < Min (set g) \<or> Max (set g) < x"
proof (cases g)
  case Nil
  then show ?thesis using assms by (simp add: axis_ok_def)
next
  case (Cons a l)
  then have "out_of_bounds g x = (x < g ! 0 \<or> last g < x)"
    by (simp add: out_of_bounds_def)
  then show ?thesis by (simp only: axis_ok_Min[OF assms] axis_ok_Max[OF assms])
qed

lemma filter_below_node:
  assumes "axis_ok g" "n < length g"
  shows "filter (\<lambda>v. v < g ! n) g = take n g"
proof -
  have lo: "\<forall>v \<in> set (take n g). v < g ! n"
    using assms by (auto simp: in_set_conv_nth axis_ok_nth_less)
  have hi: "\<forall>v \<in> set (drop n g). \<not> v < g ! n"
  proof
    fix v assume "v \<in> set (drop n g)"
    then obtain i where "i < length g - n" "v = g ! (n + i)" by (auto simp: in_set_conv_nth)
    then show "\<not> v < g ! n" using axis_ok_sorted[OF assms(1)]
      by (simp add: sorted_iff_nth_mono not_less)
  qed
  have "filter (\<lambda>v. v < g ! n) (take n g @ drop n g) = take n g"
    unfolding filter_append using lo hi by (simp add: filter_empty_conv)
  then show ?thesis by simp
qed

lemma find_cell_node:
  assumes "axis_ok g" "n < length g"
  shows "find_cell g (g ! n) = n - 1"
  using assms by (auto simp: find_cell_def filter_below_node axis_ok_def)

lemma find_cell_bound: "axis_ok g \<Longrightarrow> find_cell g x + 1 < length g"
  by (auto simp: find_cell_def axis_ok_def)

lemma cell_fraction_node:
  assumes "axis_ok g" "n < length g"
  shows "cell_fraction g (g ! n) = (if n = 0 then 0 else 1)"
proof (cases n)
  case 0
  then show ?thesis using find_cell_node[OF assms] by (simp add: cell_fraction_def Let_def)
next
  case (Suc m)
  have "g ! m < g ! Suc m" using assms Suc by (simp add: axis_ok_nth_less)
  then show ?thesis using Suc find_cell_node[OF assms] by (simp add: cell_fraction_def Let_def)
qed

lemma mat_lerp_0: "is_mat n3 n4 A \<Longrightarrow> is_mat n3 n4 B \<Longrightarrow> mat_lerp 0 A B = A"
  unfolding mat_lerp_def is_mat_def
  by (auto simp: list_eq_iff_nth_eq)

lemma mat_lerp_1: "is_mat n3 n4 A \<Longrightarrow> is_mat n3 n4 B \<Longrightarrow> mat_lerp 1 A B = B"
  unfolding mat_lerp_def is_mat_def
  by (auto simp: list_eq_iff_nth_eq)

lemma is_mat_lerp: "is_mat n3 n4 A \<Longrightarrow> is_mat n3 n4 B \<Longrightarrow> is_mat n3 n4 (mat_lerp t A B)"
  unfolding mat_lerp_def is_mat_def by (auto simp: set_zip)

lemma lerp_node:
  assumes g: "axis_ok g" "n < length g"
    and F: "\<And>a. a < length g \<Longrightarrow> is_mat n3 n4 (F a)"
  shows "mat_lerp (cell_fraction g (g ! n)) (F (find_cell g (g ! n))) (F (find_cell g (g ! n) + 1)) = F n"
proof -
  note fc = find_cell_node[OF g] and cf = cell_fraction_node[OF g]
  show ?thesis
  proof (cases n)
    case 0
    have "1 < length g" using g by (simp add: axis_ok_def)
    then have b: "0 < length g" "Suc 0 < length g" by linarith+
    have "is_mat n3 n4 (F 0)" "is_mat n3 n4 (F (Suc 0))" using F[OF b(1)] F[OF b(2)] .
    then show ?thesis unfolding fc cf using 0 by (simp add: mat_lerp_0[of n3 n4])
  next
    case (Suc m)
    then have b: "m < length g" "Suc m < length g" using g by linarith+
    have "is_mat n3 n4 (F m)" "is_mat n3 n4 (F (Suc m))" using F[OF b(1)] F[OF b(2)] .
    then show ?thesis unfolding fc cf using Suc by (simp add: mat_lerp_1[of n3 n4])
  qed
qed

lemma node_in_bounds:
  assumes "axis_ok g" "n < length g"
  shows "\<not> out_of_bounds g (g ! n)"
proof -
  have "g ! n \<in> set g" using assms(2) by simp
  then have "Min (set g) \<le> g ! n" "g ! n \<le> Max (set g)" by simp_all
  then show ?thesis using out_of_bounds_iff[OF assms(1), of "g ! n"] by simp
qed

lemma interp_query_at_node:
  assumes ax: "axis_ok (grid_x I)" "axis_ok (grid_y I)" "axis_ok (grid_z I)"
    and sh: "is_shape (length (grid_x I)) (length (grid_y I)) (length (grid_z I)) n3 n4 (grid_values I)"
    and ix: "i < length (grid_x I)" "j < length (grid_y I)" "k < length (grid_z I)"
  shows "interp_query I (grid_x I ! i, grid_y I ! j, grid_z I ! k) = Inr (grid_values I ! i ! j ! k)"
proof -
  let ?V = "grid_values I"
  let ?i = "find_cell (grid_x I) (grid_x I ! i)"
  let ?j = "find_cell (grid_y I) (grid_y I ! j)"
  let ?k = "find_cell (grid_z I) (grid_z I ! k)"
  let ?tx = "cell_fraction (grid_x I) (grid_x I ! i)"
  let ?ty = "cell_fraction (grid_y I) (grid_y I ! j)"
  let ?tz = "cell_fraction (grid_z I) (grid_z I ! k)"
  have bi: "?i < length (grid_x I)" "?i + 1 < length (grid_x I)"
    using find_cell_bound[OF ax(1), of "grid_x I ! i"] by simp_all
  have bj: "?j < length (grid_y I)" "?j + 1 < length (grid_y I)"
    using find_cell_bound[OF ax(2), of "grid_y I ! j"] by simp_all
  have z: "mat_lerp ?tz (?V ! a ! b ! ?k) (?V ! a ! b ! (?k + 1)) = ?V ! a ! b ! k"
    if "a < length (grid_x I)" "b < length (grid_y I)" for a b
    by (rule lerp_node[OF ax(3) ix(3), of n3 n4 "\<lambda>c. ?V ! a ! b ! c"])
       (rule is_shape_mat[OF sh that])
  have y: "mat_lerp ?ty (?V ! a ! ?j ! k) (?V ! a ! (?j + 1) ! k) = ?V ! a ! j ! k"
    if "a < length (grid_x I)" for a
    by (rule lerp_node[OF ax(2) ix(2), of n3 n4 "\<lambda>b. ?V ! a ! b ! k"])
       (rule is_shape_mat[OF sh that _ ix(3)])
  have x: "mat_lerp ?tx (?V ! ?i ! j ! k) (?V ! (?i + 1) ! j ! k) = ?V ! i ! j ! k"
    by (rule lerp_node[OF ax(1) ix(1), of n3 n4 "\<lambda>a. ?V ! a ! j ! k"])
       (rule is_shape_mat[OF sh _ ix(2) ix(3)])
  have nb: "\<not> out_of_bounds (grid_x I) (grid_x I ! i)" "\<not> out_of_bounds (grid_y I) (grid_y I ! j)"
      "\<not> out_of_bounds (grid_z I) (grid_z I ! k)"
    using node_in_bounds ax ix by simp_all
  show ?thesis
    unfolding interp_query_def Let_def prod.case
    by (simp only: nb z[OF bi(1) bj(1)] z[OF bi(1) bj(2)] z[OF bi(2) bj(1)] z[OF bi(2) bj(2)]
          y[OF bi(1)] y[OF bi(2)] x simp_thms if_False)
qed

lemma interp_query_in_bounds:
  assumes ax: "axis_ok (grid_x I)" "axis_ok (grid_y I)" "axis_ok (grid_z I)"
    and sh: "is_shape (length (grid_x I)) (length (grid_y I)) (length (grid_z I)) n3 n4 (grid_values I)"
    and nb: "\<not> out_of_bounds (grid_x I) x" "\<not> out_of_bounds (grid_y I) y" "\<not> out_of_bounds (grid_z I) z"
  shows "\<exists>M. interp_query I (x, y, z) = Inr M \<and> is_mat n3 n4 M"
proof -
  let ?V = "grid_values I"
  let ?i = "find_cell (grid_x I) x"
  let ?j = "find_cell (grid_y I) y"
  let ?k = "find_cell (grid_z I) z"
  have bi: "?i < length (grid_x I)" "?i + 1 < length (grid_x I)"
    using find_cell_bound[OF ax(1), of x] by simp_all
  have bj: "?j < length (grid_y I)" "?j + 1 < length (grid_y I)"
    using find_cell_bound[OF ax(2), of y] by simp_all
  have bk: "?k < length (grid_z I)" "?k + 1 < length (grid_z I)"
    using find_cell_bound[OF ax(3), of z] by simp_all
  note m = is_shape_mat[OF sh]
  show ?thesis
    unfolding interp_query_def Let_def prod.case
    using nb by (simp add: is_mat_lerp m bi bj bk del: One_nat_def)
qed

lemma interp_query_out_of_bounds:
  assumes "out_of_bounds (grid_x I) x \<or> out_of_bounds (grid_y I) y \<or> out_of_bounds (grid_z I) z"
  shows "interp_query I (x, y, z) = Inl OutOfBoundsError"
  using assms by (simp add: interp_query_def)

lemma wf_linear: "wf_system 1 linear_system"
  by (simp add: wf_system_def bound_to_def linear_system_def linear_interpolator_def
        linear_axis_def axis_ok_def is_shape_def is_mat_def linear_field_def linear_Bx_def
        linear_By_def linear_Bz_def upt3)

lemma bound_to_query:
  assumes wf: "wf_system N s" and b: "bound_to N s I" and inb: "in_box s (x, y, z)"
  shows "\<exists>M. interp_query I (x, y, z) = Inr M \<and> is_mat 3 N M"
proof -
  have ax: "axis_ok (grid_x I)" "axis_ok (grid_y I)" "axis_ok (grid_z I)"
    using wf b by (simp_all add: wf_system_def bound_to_def)
  have sh: "is_shape (length (grid_x I)) (length (grid_y I)) (length (grid_z I)) 3 N (grid_values I)"
    using b by (simp add: bound_to_def)
  have nb: "\<not> out_of_bounds (grid_x I) x" "\<not> out_of_bounds (grid_y I) y" "\<not> out_of_bounds (grid_z I) z"
    using wf b inb ax by (auto simp: out_of_bounds_iff wf_system_def bound_to_def in_box_def)
  show ?thesis by (rule interp_query_in_bounds[OF ax sh nb])
qed

lemma vec_dot_contract:
  assumes "length m = 3" "is_mat 3 N M"
  shows "vec_dot m M = Inr (spec_contract N m M)"
proof -
  obtain a b c where m: "m = [a, b, c]"
    using assms(1) by (auto simp: length_Suc_conv numeral_3_eq_3)
  obtain r0 r1 r2 where M: "M = [r0, r1, r2]"
    using assms(2) by (auto simp: is_mat_def length_Suc_conv numeral_3_eq_3)
  have "ncols M = N" using assms(2) M by (simp add: is_mat_def ncols_def)
  then show ?thesis by (simp add: vec_dot_def spec_contract_def m M)
qed

lemma length_spec_contract: "length (spec_contract N m M) = N"
  by (simp add: spec_contract_def)

section \<open>The constructor\<close>

lemma compute_gradient_tensor_fields:
  "compute_gradient_tensor s = Inr s' \<Longrightarrow> \<exists>Dx Dy Dz. s' = s\<lparr>Bx := Dx, By := Dy, Bz := Dz\<rparr>"
  by (auto simp: compute_gradient_tensor_def Let_def split: sum.splits prod.splits)

lemma axis_of_ok:
  assumes "axis_of col = Inr (cs, d, lo, hi)"
  shows "axis_ok cs" "d = cs ! 1 - cs ! 0" "lo = Min (set cs)" "hi = Max (set cs)"
    "cs = sort (extract_unique_vals_tol col)"
proof -
  let ?cs = "sort (extract_unique_vals_tol col)"
  have l: "\<not> length ?cs < 2" and e: "cs = ?cs" "d = ?cs ! 1 - ?cs ! 0"
      "lo = Min (set ?cs)" "hi = Max (set ?cs)"
    using assms by (auto simp: axis_of_def Let_def split: if_splits)
  have "distinct ?cs" by (simp add: extract_unique_vals_tol_def)
  then have "sorted_wrt (<) ?cs" by (simp add: strict_sorted_iff)
  then show "axis_ok cs" using l e(1) by (simp add: axis_ok_def)
  show "d = cs ! 1 - cs ! 0" "lo = Min (set cs)" "hi = Max (set cs)" "cs = ?cs"
    using e by simp_all
qed

lemma RegularGridInterpolator_Inr:
  assumes "RegularGridInterpolator xs ys zs V = Inr I"
  shows "I = \<lparr>grid_x = xs, grid_y = ys, grid_z = zs, grid_values = V\<rparr>"
    "axis_ok xs" "axis_ok ys" "axis_ok zs" "grid_matches xs ys zs V"
  using assms by (auto simp: RegularGridInterpolator_def split: if_splits)

lemma is_shape_grid:
  assumes sh: "is_shape nx ny nz n3 n4 V" and gm: "grid_matches xs ys zs V"
    and ax: "axis_ok xs" "axis_ok ys"
  shows "is_shape (length xs) (length ys) (length zs) n3 n4 V"
  using sh gm unfolding is_shape_def grid_matches_def by auto


lemma init_result:
  assumes sh: "is_shape nx ny nz 3 N B" and run: "init (B, cs) n posunit = Inr s"
  shows "wf_system N s" "Bs s = B" "Ncoils s = n"
    "coordinates s = (if posunit = ''mm'' then map scale_mm cs else cs)"
    "deltax s = xcoords s ! 1 - xcoords s ! 0"
    "xcoords s = sort (extract_unique_vals_tol (map fst (coordinates s)))"
proof -
  let ?coords = "if posunit = ''mm'' then map scale_mm cs else cs"
  obtain xs dx xlo xhi where X: "axis_of (map fst ?coords) = Inr (xs, dx, xlo, xhi)"
    using run by (cases "axis_of (map fst ?coords)") (auto simp: init_def Let_def)
  obtain ys dy ylo yhi where Y: "axis_of (map (\<lambda>p. fst (snd p)) ?coords) = Inr (ys, dy, ylo, yhi)"
    using run X by (cases "axis_of (map (\<lambda>p. fst (snd p)) ?coords)") (auto simp: init_def Let_def)
  obtain zs dz zlo zhi where Z: "axis_of (map (\<lambda>p. snd (snd p)) ?coords) = Inr (zs, dz, zlo, zhi)"
    using run X Y by (cases "axis_of (map (\<lambda>p. snd (snd p)) ?coords)") (auto simp: init_def Let_def)
  obtain I where I: "RegularGridInterpolator xs ys zs B = Inr I"
    using run X Y Z by (cases "RegularGridInterpolator xs ys zs B") (auto simp: init_def Let_def)
  let ?s0 = "\<lparr>Bs = B, coordinates = ?coords, Ncoils = n,
               xcoords = xs, deltax = dx, xmin = xlo, xmax = xhi,
               ycoords = ys, deltay = dy, ymin = ylo, ymax = yhi,
               zcoords = zs, deltaz = dz, zmin = zlo, zmax = zhi,
               BactInterpolator = I, Bx = [], By = [], Bz = [],
               BxInterpolator = no_interpolator, ByInterpolator = no_interpolator,
               BzInterpolator = no_interpolator\<rparr>"
  note ax = axis_of_ok(1)[OF X] axis_of_ok(1)[OF Y] axis_of_ok(1)[OF Z]
  have shB: "is_shape (length xs) (length ys) (length zs) 3 N B"
    by (rule is_shape_grid[OF sh RegularGridInterpolator_Inr(5)[OF I] ax(1,2)])
  have two: "2 \<le> length xs" "2 \<le> length ys" "2 \<le> length zs"
    using ax by (simp_all add: axis_ok_def)
  have shB0: "is_shape (length xs) (length ys) (length zs) 3 N (Bs ?s0)" using shB by simp
  obtain Dx Dy Dz where G: "compute_gradient_tensor ?s0 = Inr (?s0\<lparr>Bx := Dx, By := Dy, Bz := Dz\<rparr>)"
      and D: "is_shape (length xs) (length ys) (length zs) 3 N Dx"
        "is_shape (length xs) (length ys) (length zs) 3 N Dy"
        "is_shape (length xs) (length ys) (length zs) 3 N Dz"
    using compute_gradient_tensor_result[OF shB0 two] by blast
  have gm: "grid_matches xs ys zs Dx" "grid_matches xs ys zs Dy" "grid_matches xs ys zs Dz"
    using D by (auto simp: is_shape_def grid_matches_def)
  have s: "s = ?s0\<lparr>Bx := Dx, By := Dy, Bz := Dz,
      BxInterpolator := \<lparr>grid_x = xs, grid_y = ys, grid_z = zs, grid_values = Dx\<rparr>,
      ByInterpolator := \<lparr>grid_x = xs, grid_y = ys, grid_z = zs, grid_values = Dy\<rparr>,
      BzInterpolator := \<lparr>grid_x = xs, grid_y = ys, grid_z = zs, grid_values = Dz\<rparr>\<rparr>"
    using run G unfolding init_def Let_def prod.case X Y Z I sum.case
    by (simp add: RegularGridInterpolator_def ax gm)
  show "wf_system N s"
    unfolding s wf_system_def bound_to_def
    using ax shB D axis_of_ok(3,4)[OF X] axis_of_ok(3,4)[OF Y] axis_of_ok(3,4)[OF Z]
      RegularGridInterpolator_Inr(1)[OF I]
    by simp
  show "Bs s = B" "Ncoils s = n" "coordinates s = ?coords" by (simp_all add: s)
  show "deltax s = xcoords s ! 1 - xcoords s ! 0" using axis_of_ok(2)[OF X] by (simp add: s)
  show "xcoords s = sort (extract_unique_vals_tol (map fst (coordinates s)))"
    using axis_of_ok(5)[OF X] by (simp add: s)
qed

section \<open>Coil permutation\<close>

lemma is_shape_shape4:
  assumes "is_shape n0 n1 n2 n3 n4 T" "0 < n0" "0 < n1" "0 < n2" "0 < n3"
  shows "shape4 T = n4"
  using assms unfolding is_shape_def is_mat_def shape4_def
  by (auto split: list.splits)

lemma is_shape_coil_slice_assign:
  assumes "is_shape n0 n1 n2 n3 n4 T" "is_shape n0 n1 n2 n3 n4 S"
  shows "is_shape n0 n1 n2 n3 n4 (coil_slice_assign T idx S c)"
  using assms unfolding is_shape_def is_mat_def coil_slice_assign_def
  by (auto simp: set_zip all_set_conv_all_nth)

lemma coil_slice_assign_nth:
  assumes T: "is_shape n0 n1 n2 n3 n4 T" and S: "is_shape n0 n1 n2 n3 n4 S"
    and ix: "i < n0" "j < n1" "k < n2" "r < n3" "n < n4" and idx: "idx < n4"
  shows "coil_slice_assign T idx S c ! i ! j ! k ! r ! n =
           (if n = idx then S ! i ! j ! k ! r ! c else T ! i ! j ! k ! r ! n)"
proof -
  note lT = is_shape_len0[OF T] is_shape_len1[OF T] is_shape_len2[OF T]
  note lS = is_shape_len0[OF S] is_shape_len1[OF S] is_shape_len2[OF S]
  have mT: "length (T ! i ! j ! k) = n3" "length (T ! i ! j ! k ! r) = n4"
    using is_shape_mat[OF T ix(1,2,3)] ix(4) by (simp_all add: is_mat_def)
  have mS: "length (S ! i ! j ! k) = n3"
    using is_shape_mat[OF S ix(1,2,3)] by (simp add: is_mat_def)
  show ?thesis
    unfolding coil_slice_assign_def
    using ix idx by (simp add: lT lS mT mS)
qed


lemma py_index_None: "py_index n i = None \<longleftrightarrow> \<not> (- int n \<le> i \<and> i < int n)"
  by (auto simp: py_index_def)

lemma permute_step_cases:
  assumes "shape4 B = n4" "shape4 T = n4"
  shows "permute_step B cv a T =
           (if step_ok n4 cv a then Inr (coil_slice_assign T a B (the (py_index n4 (cv ! a))))
            else Inl (IndexError, T))"
  using assms py_index_None[of n4 "cv ! a"]
  by (auto simp: permute_step_def step_ok_def split: option.splits)

lemma permute_loop:
  assumes sh: "is_shape n0 n1 n2 n3 n4 B" and pos: "0 < n0" "0 < n1" "0 < n2" "0 < n3"
  shows "case for_loop [0..<m] (permute_step B cv) B of
           Inr T \<Rightarrow> (\<forall>a<m. step_ok n4 cv a) \<and> is_shape n0 n1 n2 n3 n4 T \<and>
             (\<forall>i<n0. \<forall>j<n1. \<forall>k<n2. \<forall>r<n3. \<forall>n<n4.
                T ! i ! j ! k ! r ! n =
                  (if n < m then B ! i ! j ! k ! r ! the (py_index n4 (cv ! n))
                   else B ! i ! j ! k ! r ! n))
         | Inl (e, T) \<Rightarrow> e = IndexError \<and> \<not> (\<forall>a<m. step_ok n4 cv a)"
proof (induction m)
  case 0
  show ?case using sh by simp
next
  case (Suc m)
  show ?case
  proof (cases "for_loop [0..<m] (permute_step B cv) B")
    case (Inl p)
    then show ?thesis using Suc
      by (auto simp: for_loop_upt_Suc less_Suc_eq simp del: upt_Suc split: prod.splits)
  next
    case (Inr T)
    have IH: "\<forall>a<m. step_ok n4 cv a" "is_shape n0 n1 n2 n3 n4 T"
      "\<forall>i<n0. \<forall>j<n1. \<forall>k<n2. \<forall>r<n3. \<forall>n<n4.
          T ! i ! j ! k ! r ! n =
            (if n < m then B ! i ! j ! k ! r ! the (py_index n4 (cv ! n))
             else B ! i ! j ! k ! r ! n)"
      using Suc Inr by simp_all
    have s4: "shape4 B = n4" "shape4 T = n4"
      using is_shape_shape4[OF sh pos] is_shape_shape4[OF IH(2) pos] by simp_all
    show ?thesis
    proof (cases "step_ok n4 cv m")
      case False
      then show ?thesis
        using Inr by (auto simp: for_loop_upt_Suc permute_step_cases[OF s4] simp del: upt_Suc)
    next
      case True
      let ?c = "the (py_index n4 (cv ! m))"
      let ?T = "coil_slice_assign T m B ?c"
      have run: "for_loop [0..<Suc m] (permute_step B cv) B = Inr ?T"
        using Inr True by (simp add: for_loop_upt_Suc permute_step_cases[OF s4] del: upt_Suc)
      have ok: "\<forall>a<Suc m. step_ok n4 cv a" using IH(1) True by (auto simp: less_Suc_eq)
      have shT: "is_shape n0 n1 n2 n3 n4 ?T" by (rule is_shape_coil_slice_assign[OF IH(2) sh])
      have m4: "m < n4" using True by (simp add: step_ok_def)
      have el: "?T ! i ! j ! k ! r ! n =
            (if n < Suc m then B ! i ! j ! k ! r ! the (py_index n4 (cv ! n))
             else B ! i ! j ! k ! r ! n)"
        if "i < n0" "j < n1" "k < n2" "r < n3" "n < n4" for i j k r n
        using coil_slice_assign_nth[OF IH(2) sh that m4, of ?c] IH(3) that
        by (auto simp: less_Suc_eq)
      show ?thesis unfolding run using ok shT el by simp
    qed
  qed
qed

lemma wf_system_shape:
  assumes "wf_system N s"
  shows "is_shape (length (xcoords s)) (length (ycoords s)) (length (zcoords s)) 3 N (Bs s)"
    "2 \<le> length (xcoords s)" "2 \<le> length (ycoords s)" "2 \<le> length (zcoords s)"
  using assms by (auto simp: wf_system_def bound_to_def axis_ok_def)

lemma permutate_coils_cases:
  assumes wf: "wf_system N s"
  shows "if (\<forall>a<6. step_ok N cv a)
         then (\<exists>T Dx Dy Dz.
                 permutate_coils s cv =
                   Inr (s\<lparr>Bs := T,
                          BactInterpolator := \<lparr>grid_x = xcoords s, grid_y = ycoords s,
                                               grid_z = zcoords s, grid_values = T\<rparr>,
                          Bx := Dx, By := Dy, Bz := Dz\<rparr>) \<and>
                 is_shape (length (xcoords s)) (length (ycoords s)) (length (zcoords s)) 3 N T \<and>
                 (\<forall>i<length (xcoords s). \<forall>j<length (ycoords s). \<forall>k<length (zcoords s). \<forall>r<3. \<forall>n<N.
                    T ! i ! j ! k ! r ! n =
                      (if n < 6 then Bs s ! i ! j ! k ! r ! the (py_index N (cv ! n))
                       else Bs s ! i ! j ! k ! r ! n)))
         else permutate_coils s cv = Inl (IndexError, s)"
proof -
  let ?nx = "length (xcoords s)" and ?ny = "length (ycoords s)" and ?nz = "length (zcoords s)"
  note sh = wf_system_shape(1)[OF wf] and two = wf_system_shape(2,3,4)[OF wf]
  have pos: "0 < ?nx" "0 < ?ny" "0 < ?nz" "0 < (3::nat)" using two by linarith+
  note loop = permute_loop[OF sh pos, of 6 cv]
  show ?thesis
  proof (cases "for_loop [0..<6] (permute_step (Bs s) cv) (Bs s)")
    case (Inl p)
    obtain e T where p: "p = (e, T)" by (cases p) auto
    have "e = IndexError" "\<not> (\<forall>a<6. step_ok N cv a)" using loop Inl p by simp_all
    then show ?thesis using Inl p by (simp add: permutate_coils_def)
  next
    case (Inr T)
    have ok: "\<forall>a<6. step_ok N cv a" and shT: "is_shape ?nx ?ny ?nz 3 N T"
      and el: "\<forall>i<?nx. \<forall>j<?ny. \<forall>k<?nz. \<forall>r<3. \<forall>n<N.
                 T ! i ! j ! k ! r ! n =
                   (if n < 6 then Bs s ! i ! j ! k ! r ! the (py_index N (cv ! n))
                    else Bs s ! i ! j ! k ! r ! n)"
      using loop Inr by simp_all
    let ?I = "\<lparr>grid_x = xcoords s, grid_y = ycoords s, grid_z = zcoords s, grid_values = T\<rparr>"
    have gm: "grid_matches (xcoords s) (ycoords s) (zcoords s) T"
      using shT by (auto simp: is_shape_def grid_matches_def)
    have I: "RegularGridInterpolator (xcoords s) (ycoords s) (zcoords s) T = Inr ?I"
      using wf gm by (simp add: RegularGridInterpolator_def wf_system_def)
    let ?s1 = "s\<lparr>Bs := T, BactInterpolator := ?I\<rparr>"
    have sh1: "is_shape ?nx ?ny ?nz 3 N (Bs ?s1)" using shT by simp
    obtain Dx Dy Dz where G: "compute_gradient_tensor ?s1 = Inr (?s1\<lparr>Bx := Dx, By := Dy, Bz := Dz\<rparr>)"
      using compute_gradient_tensor_result[OF sh1 two] by blast
    have run: "permutate_coils s cv = Inr (?s1\<lparr>Bx := Dx, By := Dy, Bz := Dz\<rparr>)"
      by (simp add: permutate_coils_def Inr I G)
    have ex: "\<exists>T Dx Dy Dz.
            permutate_coils s cv =
              Inr (s\<lparr>Bs := T,
                     BactInterpolator := \<lparr>grid_x = xcoords s, grid_y = ycoords s,
                                          grid_z = zcoords s, grid_values = T\<rparr>,
                     Bx := Dx, By := Dy, Bz := Dz\<rparr>) \<and>
            is_shape ?nx ?ny ?nz 3 N T \<and>
            (\<forall>i<?nx. \<forall>j<?ny. \<forall>k<?nz. \<forall>r<3. \<forall>n<N.
               T ! i ! j ! k ! r ! n =
                 (if n < 6 then Bs s ! i ! j ! k ! r ! the (py_index N (cv ! n))
                  else Bs s ! i ! j ! k ! r ! n))"
      by (intro exI conjI) (rule run shT el)+
    show ?thesis unfolding if_P[OF ok] by (rule ex)
  qed
qed

lemma permutate_coils_derivative_interpolators:
  assumes "permutate_coils s cv = Inr s'"
  shows "BxInterpolator s' = BxInterpolator s" "ByInterpolator s' = ByInterpolator s"
    "BzInterpolator s' = BzInterpolator s"
  using assms
  by (auto simp: permutate_coils_def split: sum.splits prod.splits
        dest!: compute_gradient_tensor_fields)

lemma permutate_coils_wf:
  assumes wf: "wf_system N s" and run: "permutate_coils s cv = Inr s'"
  shows "wf_system N s'"
proof -
  have ok: "\<forall>a<6. step_ok N cv a"
    using permutate_coils_cases[OF wf, of cv] run by (auto split: if_splits)
  then obtain T Dx Dy Dz where
    s': "s' = s\<lparr>Bs := T,
                 BactInterpolator := \<lparr>grid_x = xcoords s, grid_y = ycoords s,
                                      grid_z = zcoords s, grid_values = T\<rparr>,
                 Bx := Dx, By := Dy, Bz := Dz\<rparr>"
    and shT: "is_shape (length (xcoords s)) (length (ycoords s)) (length (zcoords s)) 3 N T"
    using permutate_coils_cases[OF wf, of cv] run by auto
  show ?thesis using wf shT unfolding s' wf_system_def bound_to_def by simp
qed

lemma upt2: "[0..<2] = [0, 1]"
  by (simp add: upt_rec)

lemma upt6: "[0..<6] = [0, 1, 2, 3, 4, 5]"
  by (simp add: upt_rec)

lemma coil_axes:
  "axis_of (map fst coil_coords) = Inr (coil_axis, 1 / 100, 0, 1 / 100)"
  "axis_of (map (\<lambda>p. fst (snd p)) coil_coords) = Inr (coil_axis, 1 / 100, 0, 1 / 100)"
  "axis_of (map (\<lambda>p. snd (snd p)) coil_coords) = Inr (coil_axis, 1 / 100, 0, 1 / 100)"
  by (simp_all add: axis_of_def coil_coords_def coil_axis_def upt2
        extract_unique_vals_tol_def py_round_def)

lemma coil_gradient:
  assumes "length w = 6"
  shows "compute_gradient_tensor (s\<lparr>Bs := coil_field w, deltax := 1 / 100, deltay := 1 / 100, deltaz := 1 / 100\<rparr>) =
     Inr (s\<lparr>Bs := coil_field w, deltax := 1 / 100, deltay := 1 / 100, deltaz := 1 / 100,
            Bx := coil_Bx w, By := coil_By w, Bz := coil_Bz w\<rparr>)"
proof -
  obtain a b c d e f where w: "w = [a, b, c, d, e, f]"
    using assms by (auto simp: length_Suc_conv eval_nat_numeral)
  show ?thesis
    unfolding w
    by (simp add: compute_gradient_tensor_def coil_field_def coil_Bx_def coil_By_def
        coil_Bz_def upt2 shape0_def shape1_def shape2_def fill_nodes_def
        store_node_def dBdx_rhs_def dBdy_rhs_def dBdz_rhs_def diffq_def node_def set_node_def
        zeros_like_def mat_diffq_def)
qed

lemma coil_gradient3:
  assumes "length w = 3"
  shows "compute_gradient_tensor (s\<lparr>Bs := coil_field w, deltax := 1 / 100, deltay := 1 / 100, deltaz := 1 / 100\<rparr>) =
     Inr (s\<lparr>Bs := coil_field w, deltax := 1 / 100, deltay := 1 / 100, deltaz := 1 / 100,
            Bx := coil_Bx w, By := coil_By w, Bz := coil_Bz w\<rparr>)"
proof -
  obtain a b c where w: "w = [a, b, c]"
    using assms by (auto simp: length_Suc_conv eval_nat_numeral)
  show ?thesis
    unfolding w
    by (simp add: compute_gradient_tensor_def coil_field_def coil_Bx_def coil_By_def
        coil_Bz_def upt2 shape0_def shape1_def shape2_def fill_nodes_def
        store_node_def dBdx_rhs_def dBdy_rhs_def dBdz_rhs_def diffq_def node_def set_node_def
        zeros_like_def mat_diffq_def)
qed

lemma coil_interpolators:
  "RegularGridInterpolator coil_axis coil_axis coil_axis (coil_field w) = Inr (coil_interpolator (coil_field w))"
  "RegularGridInterpolator coil_axis coil_axis coil_axis (coil_Bx w) = Inr (coil_interpolator (coil_Bx w))"
  "RegularGridInterpolator coil_axis coil_axis coil_axis (coil_By w) = Inr (coil_interpolator (coil_By w))"
  "RegularGridInterpolator coil_axis coil_axis coil_axis (coil_Bz w) = Inr (coil_interpolator (coil_Bz w))"
  by (simp_all add: RegularGridInterpolator_def axis_ok_def grid_matches_def coil_axis_def
        coil_interpolator_def coil_field_def coil_Bx_def coil_By_def coil_Bz_def upt2)

lemma init_six: "init (coil_field six_coils, coil_coords) 6 ''m'' = Inr (coil_system six_coils six_coils)"
proof -
  have l: "length six_coils = 6" by (simp add: six_coils_def)
  show ?thesis
    using coil_gradient[OF l, of "\<lparr>Bs = coil_field six_coils, coordinates = coil_coords, Ncoils = 6,
               xcoords = coil_axis, deltax = 1 / 100, xmin = 0, xmax = 1 / 100,
               ycoords = coil_axis, deltay = 1 / 100, ymin = 0, ymax = 1 / 100,
               zcoords = coil_axis, deltaz = 1 / 100, zmin = 0, zmax = 1 / 100,
               BactInterpolator = coil_interpolator (coil_field six_coils), Bx = [], By = [], Bz = [],
               BxInterpolator = no_interpolator, ByInterpolator = no_interpolator,
               BzInterpolator = no_interpolator\<rparr>"]
    by (simp add: init_def Let_def coil_axes coil_interpolators coil_system_def l del: map_map)
qed

lemma init_three: "init (coil_field three_coils, coil_coords) 3 ''m'' = Inr (coil_system three_coils three_coils)"
proof -
  have l: "length three_coils = 3" by (simp add: three_coils_def)
  show ?thesis
    using coil_gradient3[OF l, of "\<lparr>Bs = coil_field three_coils, coordinates = coil_coords, Ncoils = 3,
               xcoords = coil_axis, deltax = 1 / 100, xmin = 0, xmax = 1 / 100,
               ycoords = coil_axis, deltay = 1 / 100, ymin = 0, ymax = 1 / 100,
               zcoords = coil_axis, deltaz = 1 / 100, zmin = 0, zmax = 1 / 100,
               BactInterpolator = coil_interpolator (coil_field three_coils), Bx = [], By = [], Bz = [],
               BxInterpolator = no_interpolator, ByInterpolator = no_interpolator,
               BzInterpolator = no_interpolator\<rparr>"]
    by (simp add: init_def Let_def coil_axes coil_interpolators coil_system_def l del: map_map)
qed

lemma permute_loop_swap:
  "for_loop [0..<6] (permute_step (coil_field six_coils) [1, 0, 2, 3, 4, 5]) (coil_field six_coils) =
     Inr (coil_field [2, 1, 3, 4, 5, 6])"
  by (simp add: upt6 permute_step_def shape4_def coil_field_def six_coils_def upt2 py_index_def
        coil_slice_assign_def)

lemma permute_loop_constant:
  "for_loop [0..<6] (permute_step (coil_field six_coils) [0, 0, 0, 0, 0, 0]) (coil_field six_coils) =
     Inr (coil_field [1, 1, 1, 1, 1, 1])"
  by (simp add: upt6 permute_step_def shape4_def coil_field_def six_coils_def upt2 py_index_def
        coil_slice_assign_def)

lemma permute_loop_three:
  "for_loop [0..<6] (permute_step (coil_field three_coils) [2, 1, 0]) (coil_field three_coils) =
     Inl (IndexError, coil_field [3, 2, 1])"
  by (simp add: upt6 permute_step_def shape4_def coil_field_def three_coils_def upt2 py_index_def
        coil_slice_assign_def)

lemma permutate_swap:
  "permutate_coils (coil_system six_coils six_coils) [1, 0, 2, 3, 4, 5] =
     Inr (coil_system [2, 1, 3, 4, 5, 6] six_coils)"
proof -
  have l: "length [2, 1, 3, 4, 5, 6 :: real] = 6" by simp
  have l6: "length six_coils = 6" by (simp add: six_coils_def)
  show ?thesis
    using coil_gradient[OF l, of "\<lparr>Bs = coil_field six_coils, coordinates = coil_coords, Ncoils = 6,
               xcoords = coil_axis, deltax = 1 / 100, xmin = 0, xmax = 1 / 100,
               ycoords = coil_axis, deltay = 1 / 100, ymin = 0, ymax = 1 / 100,
               zcoords = coil_axis, deltaz = 1 / 100, zmin = 0, zmax = 1 / 100,
               BactInterpolator = coil_interpolator (coil_field [2, 1, 3, 4, 5, 6]),
               Bx = coil_Bx six_coils, By = coil_By six_coils, Bz = coil_Bz six_coils,
               BxInterpolator = coil_interpolator (coil_Bx six_coils),
               ByInterpolator = coil_interpolator (coil_By six_coils),
               BzInterpolator = coil_interpolator (coil_Bz six_coils)\<rparr>"]
    by (simp add: permutate_coils_def coil_system_def permute_loop_swap coil_interpolators
          l6)
qed

lemma permutate_constant:
  "permutate_coils (coil_system six_coils six_coils) [0, 0, 0, 0, 0, 0] =
     Inr (coil_system [1, 1, 1, 1, 1, 1] six_coils)"
proof -
  have l: "length [1, 1, 1, 1, 1, 1 :: real] = 6" by simp
  have l6: "length six_coils = 6" by (simp add: six_coils_def)
  show ?thesis
    using coil_gradient[OF l, of "\<lparr>Bs = coil_field six_coils, coordinates = coil_coords, Ncoils = 6,
               xcoords = coil_axis, deltax = 1 / 100, xmin = 0, xmax = 1 / 100,
               ycoords = coil_axis, deltay = 1 / 100, ymin = 0, ymax = 1 / 100,
               zcoords = coil_axis, deltaz = 1 / 100, zmin = 0, zmax = 1 / 100,
               BactInterpolator = coil_interpolator (coil_field [1, 1, 1, 1, 1, 1]),
               Bx = coil_Bx six_coils, By = coil_By six_coils, Bz = coil_Bz six_coils,
               BxInterpolator = coil_interpolator (coil_Bx six_coils),
               ByInterpolator = coil_interpolator (coil_By six_coils),
               BzInterpolator = coil_interpolator (coil_Bz six_coils)\<rparr>"]
    by (simp add: permutate_coils_def coil_system_def permute_loop_constant coil_interpolators
          l6)
qed

lemma wf_six: "wf_system 6 (coil_system six_coils six_coils)"
  by (simp add: wf_system_def bound_to_def coil_system_def coil_interpolator_def
        coil_axis_def axis_ok_def is_shape_def is_mat_def coil_field_def coil_Bx_def
        coil_By_def coil_Bz_def upt2 six_coils_def)

section \<open>The extended actuation matrix\<close>

lemma getA_tuple_position:
  assumes wf: "wf_system N s" and inb: "in_box s (x, y, z)" and m: "length m = 3"
  shows "\<exists>A Bact dx dy dz.
           getA s (PosTuple x y z) m = Inr (Matrix A) \<and> is_mat 6 N A \<and>
           getBact s (PosTuple x y z) = Inr (Matrix Bact) \<and> take 3 A = Bact \<and>
           getDerMatrices s (PosTuple x y z) = Inr (Matrix dx, Matrix dy, Matrix dz) \<and>
           A ! 3 = spec_contract N m dx \<and> A ! 4 = spec_contract N m dy \<and>
           A ! 5 = spec_contract N m dz"
proof -
  have b: "bound_to N s (BactInterpolator s)" "bound_to N s (BxInterpolator s)"
      "bound_to N s (ByInterpolator s)" "bound_to N s (BzInterpolator s)"
    using wf by (simp_all add: wf_system_def)
  obtain Bact where Bact: "interp_query (BactInterpolator s) (x, y, z) = Inr Bact" "is_mat 3 N Bact"
    using bound_to_query[OF wf b(1) inb] by blast
  obtain dx where dx: "interp_query (BxInterpolator s) (x, y, z) = Inr dx" "is_mat 3 N dx"
    using bound_to_query[OF wf b(2) inb] by blast
  obtain dy where dy: "interp_query (ByInterpolator s) (x, y, z) = Inr dy" "is_mat 3 N dy"
    using bound_to_query[OF wf b(3) inb] by blast
  obtain dz where dz: "interp_query (BzInterpolator s) (x, y, z) = Inr dz" "is_mat 3 N dz"
    using bound_to_query[OF wf b(4) inb] by blast
  let ?A = "Bact @ [spec_contract N m dx, spec_contract N m dy, spec_contract N m dz]"
  have der: "getDerMatrices s (PosTuple x y z) = Inr (Matrix dx, Matrix dy, Matrix dz)"
    by (simp add: getDerMatrices_def interp_call_def dx(1) dy(1) dz(1))
  have act: "getBact s (PosTuple x y z) = Inr (Matrix Bact)"
    by (simp add: getBact_def interp_call_def Bact(1))
  have len: "length Bact = 3" and rows: "\<forall>r \<in> set Bact. length r = N"
    using Bact(2) by (simp_all add: is_mat_def)
  have dots: "nd_dot m (Matrix dx) = Inr (Vector (spec_contract N m dx))"
      "nd_dot m (Matrix dy) = Inr (Vector (spec_contract N m dy))"
      "nd_dot m (Matrix dz) = Inr (Vector (spec_contract N m dz))"
    by (simp_all add: nd_dot_def vec_dot_contract[OF m dx(2)] vec_dot_contract[OF m dy(2)]
          vec_dot_contract[OF m dz(2)])
  have st: "vstack [Matrix Bact, Vector (spec_contract N m dx), Vector (spec_contract N m dy),
                    Vector (spec_contract N m dz)] = Inr (Matrix ?A)"
    using rows by (simp add: vstack_def same_cols_def length_spec_contract)
  have run: "getA s (PosTuple x y z) m = Inr (Matrix ?A)"
    by (simp add: getA_def der act dots st)
  have shape: "is_mat 6 N ?A"
    using len rows by (auto simp: is_mat_def length_spec_contract)
  have rest: "take 3 ?A = Bact" "?A ! 3 = spec_contract N m dx" "?A ! 4 = spec_contract N m dy"
      "?A ! 5 = spec_contract N m dz"
    using len by (simp_all add: nth_append)
  show ?thesis
    by (intro exI conjI) (rule run shape act rest der)+
qed

lemma getA_array_position:
  assumes wf: "wf_system N s" and inb: "in_box s (x, y, z)" and m: "length m = 3"
  shows "getA s (PosArray x y z) m = Inl ValueError"
    "\<exists>Bact. getBact s (PosArray x y z) = Inr (Stack [Bact]) \<and> is_mat 3 N Bact"
proof -
  have b: "bound_to N s (BactInterpolator s)" "bound_to N s (BxInterpolator s)"
      "bound_to N s (ByInterpolator s)" "bound_to N s (BzInterpolator s)"
    using wf by (simp_all add: wf_system_def)
  obtain Bact where Bact: "interp_query (BactInterpolator s) (x, y, z) = Inr Bact" "is_mat 3 N Bact"
    using bound_to_query[OF wf b(1) inb] by blast
  obtain dx where dx: "interp_query (BxInterpolator s) (x, y, z) = Inr dx" "is_mat 3 N dx"
    using bound_to_query[OF wf b(2) inb] by blast
  obtain dy where dy: "interp_query (ByInterpolator s) (x, y, z) = Inr dy" "is_mat 3 N dy"
    using bound_to_query[OF wf b(3) inb] by blast
  obtain dz where dz: "interp_query (BzInterpolator s) (x, y, z) = Inr dz" "is_mat 3 N dz"
    using bound_to_query[OF wf b(4) inb] by blast
  have der: "getDerMatrices s (PosArray x y z) = Inr (Stack [dx], Stack [dy], Stack [dz])"
    by (simp add: getDerMatrices_def interp_call_def dx(1) dy(1) dz(1))
  have act: "getBact s (PosArray x y z) = Inr (Stack [Bact])"
    by (simp add: getBact_def interp_call_def Bact(1))
  have l: "length dx = 3" "length dy = 3" "length dz = 3"
    using dx(2) dy(2) dz(2) by (simp_all add: is_mat_def)
  obtain r1 r2 r3 where dots: "nd_dot m (Stack [dx]) = Inr (Matrix r1)"
      "nd_dot m (Stack [dy]) = Inr (Matrix r2)" "nd_dot m (Stack [dz]) = Inr (Matrix r3)"
    using m l by (simp add: nd_dot_def)
  have st: "vstack [Stack [Bact], Matrix r1, Matrix r2, Matrix r3] = Inl ValueError"
    by (simp add: vstack_def split: sum.splits ndarray.splits)
  show "getA s (PosArray x y z) m = Inl ValueError"
    by (simp add: getA_def der act dots st)
  show "\<exists>Bact. getBact s (PosArray x y z) = Inr (Stack [Bact]) \<and> is_mat 3 N Bact"
    using act Bact(2) by blast
qed

lemma linear_queries:
  "interp_query (linear_interpolator linear_field) (1 / 200, 1 / 100, 0) = Inr [[1 / 200], [1 / 100], [0]]"
  "interp_query (linear_interpolator linear_Bx) (1 / 200, 1 / 100, 0) = Inr [[3 / 2], [0], [0]]"
  "interp_query (linear_interpolator linear_By) (1 / 200, 1 / 100, 0) = Inr [[0], [2], [0]]"
  "interp_query (linear_interpolator linear_Bz) (1 / 200, 1 / 100, 0) = Inr [[0], [0], [1]]"
  by (simp_all add: interp_query_def linear_interpolator_def linear_axis_def out_of_bounds_def
        find_cell_def cell_fraction_def mat_lerp_def linear_field_def linear_Bx_def
        linear_By_def linear_Bz_def linear_slope_def upt3)

section \<open>The claims\<close>

text \<open>
  C3. For a field tensor whose three axis lengths are all at least 2,
  \<^verbatim>\<open>_compute_gradient_tensor\<close> returns, and leaves three tensors of the shape of the field
  tensor in \<open>Bx\<close>, \<open>By\<close> and \<open>Bz\<close>. For each direction, every node and every
  (component, coil) entry, the entry is the forward difference over the spacing at index
  0, the backward difference over the spacing at the last index, and at an interior
  index the difference of the two neighbours over the single spacing (not twice it):
  the value \<open>spec_difference\<close> gives.
\<close>

theorem gradient_tensor_differences:
  assumes sh: "is_shape Nx Ny Nz n3 n4 (Bs s)"
    and N: "2 \<le> Nx" "2 \<le> Ny" "2 \<le> Nz"
  shows "\<exists>Dx Dy Dz. compute_gradient_tensor s = Inr (s\<lparr>Bx := Dx, By := Dy, Bz := Dz\<rparr>) \<and>
           is_shape Nx Ny Nz n3 n4 Dx \<and> is_shape Nx Ny Nz n3 n4 Dy \<and> is_shape Nx Ny Nz n3 n4 Dz \<and>
           (\<forall>i<Nx. \<forall>j<Ny. \<forall>k<Nz. \<forall>c<n3. \<forall>n<n4.
              Dx ! i ! j ! k ! c ! n = spec_difference Nx (\<lambda>a. Bs s ! a ! j ! k ! c ! n) i (deltax s) \<and>
              Dy ! i ! j ! k ! c ! n = spec_difference Ny (\<lambda>a. Bs s ! i ! a ! k ! c ! n) j (deltay s) \<and>
              Dz ! i ! j ! k ! c ! n = spec_difference Nz (\<lambda>a. Bs s ! i ! j ! a ! c ! n) k (deltaz s))"
  using sh N by (rule compute_gradient_tensor_result)

theorem gradient_tensor_differences_witness:
  "is_shape 3 3 3 3 1 (Bs linear_system) \<and> (2::nat) \<le> 3 \<and>
   (\<exists>Dx Dy Dz. compute_gradient_tensor linear_system =
        Inr (linear_system\<lparr>Bx := Dx, By := Dy, Bz := Dz\<rparr>) \<and>
      is_shape 3 3 3 3 1 Dx \<and> is_shape 3 3 3 3 1 Dy \<and> is_shape 3 3 3 3 1 Dz \<and>
      (\<forall>i<3. \<forall>j<3. \<forall>k<3. \<forall>c<3. \<forall>n<1.
         Dx ! i ! j ! k ! c ! n =
           spec_difference 3 (\<lambda>a. Bs linear_system ! a ! j ! k ! c ! n) i (deltax linear_system) \<and>
         Dy ! i ! j ! k ! c ! n =
           spec_difference 3 (\<lambda>a. Bs linear_system ! i ! a ! k ! c ! n) j (deltay linear_system) \<and>
         Dz ! i ! j ! k ! c ! n =
           spec_difference 3 (\<lambda>a. Bs linear_system ! i ! j ! a ! c ! n) k (deltaz linear_system)))"
proof -
  have sh: "is_shape 3 3 3 3 1 (Bs linear_system)"
    using linear_shape by (simp add: linear_system_def)
  have two: "(2::nat) \<le> 3" by simp
  show ?thesis
    using sh two gradient_tensor_differences[OF sh two two two] by simp
qed

text \<open>
  C4. On the grid of 3 nodes per axis with the linear field of slope 1, the constructor
  builds \<open>linear_system\<close>: the spacing is 1/100 and the field along x is 0, 1/100, 2/100.
  The derivative it stores along x is 1 at the two boundary nodes and 2, twice the
  slope, at the interior node.
\<close>

theorem linear_field_interior_derivative:
  "init (linear_field, linear_coords) 1 ''mm'' = Inr linear_system \<and>
   xcoords linear_system = [0, 1 / 100, 2 / 100] \<and> deltax linear_system = 1 / 100 \<and>
   Bs linear_system ! 0 ! 0 ! 0 ! 0 ! 0 = 0 \<and>
   Bs linear_system ! 1 ! 0 ! 0 ! 0 ! 0 = 1 / 100 \<and>
   Bs linear_system ! 2 ! 0 ! 0 ! 0 ! 0 = 2 / 100 \<and>
   Bx linear_system ! 0 ! 0 ! 0 ! 0 ! 0 = 1 \<and>
   Bx linear_system ! 1 ! 0 ! 0 ! 0 ! 0 = 2 \<and>
   Bx linear_system ! 2 ! 0 ! 0 ! 0 ! 0 = 1"
proof -
  have vals: "xcoords linear_system = [0, 1 / 100, 2 / 100] \<and> deltax linear_system = 1 / 100 \<and>
      Bs linear_system ! 0 ! 0 ! 0 ! 0 ! 0 = 0 \<and>
      Bs linear_system ! 1 ! 0 ! 0 ! 0 ! 0 = 1 / 100 \<and>
      Bs linear_system ! 2 ! 0 ! 0 ! 0 ! 0 = 2 / 100 \<and>
      Bx linear_system ! 0 ! 0 ! 0 ! 0 ! 0 = 1 \<and>
      Bx linear_system ! 1 ! 0 ! 0 ! 0 ! 0 = 2 \<and>
      Bx linear_system ! 2 ! 0 ! 0 ! 0 ! 0 = 1"
    by (simp add: linear_system_def linear_axis_def linear_field_def linear_Bx_def
          linear_slope_def upt3)
  show ?thesis using init_linear vals by (rule conjI)
qed

text \<open>
  C6 (against the interpolator as the spec describes it). On a system the constructor
  builds, a query of the field at a position outside the box
  \<open>[xmin, xmax] \<times> [ymin, ymax] \<times> [zmin, zmax]\<close> fails with OutOfBoundsError, whether the
  position is passed as a tuple or as an array: no value is returned. The witness is the
  spec's scenario: the x-axis is \<open>[0, 0.01, 0.02]\<close> and the position has \<open>x = 0.05\<close>.
\<close>

theorem getBact_outside_box:
  assumes wf: "wf_system N s"
    and out: "x < xmin s \<or> xmax s < x \<or> y < ymin s \<or> ymax s < y \<or> z < zmin s \<or> zmax s < z"
  shows "getBact s (PosTuple x y z) = Inl OutOfBoundsError \<and>
         getBact s (PosArray x y z) = Inl OutOfBoundsError"
proof -
  let ?I = "BactInterpolator s"
  have g: "grid_x ?I = xcoords s" "grid_y ?I = ycoords s" "grid_z ?I = zcoords s"
    using wf by (simp_all add: wf_system_def bound_to_def)
  have ax: "axis_ok (xcoords s)" "axis_ok (ycoords s)" "axis_ok (zcoords s)"
    using wf by (simp_all add: wf_system_def)
  have "out_of_bounds (grid_x ?I) x \<or> out_of_bounds (grid_y ?I) y \<or> out_of_bounds (grid_z ?I) z"
    using out wf unfolding g out_of_bounds_iff[OF ax(1)] out_of_bounds_iff[OF ax(2)]
      out_of_bounds_iff[OF ax(3)]
    by (simp add: wf_system_def)
  then have "interp_query ?I (x, y, z) = Inl OutOfBoundsError"
    by (rule interp_query_out_of_bounds)
  then show ?thesis by (simp add: getBact_def interp_call_def)
qed

theorem getBact_outside_box_witness:
  "wf_system 1 linear_system \<and> xcoords linear_system = [0, 1 / 100, 2 / 100] \<and>
   (5 / 100 < xmin linear_system \<or> xmax linear_system < 5 / 100 \<or>
    0 < ymin linear_system \<or> ymax linear_system < 0 \<or>
    0 < zmin linear_system \<or> zmax linear_system < 0) \<and>
   getBact linear_system (PosTuple (5 / 100) 0 0) = Inl OutOfBoundsError \<and>
   getBact linear_system (PosArray (5 / 100) 0 0) = Inl OutOfBoundsError"
proof -
  have out: "5 / 100 < xmin linear_system \<or> xmax linear_system < 5 / 100 \<or>
      0 < ymin linear_system \<or> ymax linear_system < 0 \<or>
      0 < zmin linear_system \<or> zmax linear_system < 0"
    by (simp add: linear_system_def)
  have ax: "xcoords linear_system = [0, 1 / 100, 2 / 100]"
    by (simp add: linear_system_def linear_axis_def)
  show ?thesis
    using wf_linear ax out getBact_outside_box[OF wf_linear out] by (intro conjI) simp_all
qed

text \<open>
  C7. On the grid of 3 nodes per axis that the constructor builds, at the position
  \<open>(0.005, 0.01, 0)\<close> inside the box and with the dipole moment \<open>[1, 2, 3]\<close>: passed as an
  array, as the docstring of \<^verbatim>\<open>getA\<close> names it, the position makes \<^verbatim>\<open>getBact\<close> and
  \<^verbatim>\<open>getDerMatrices\<close> return arrays of shape \<^verbatim>\<open>(1, 3, Ncoils)\<close>, the three products with \<open>m\<close>
  have two dimensions, and \<^verbatim>\<open>np.vstack\<close> raises ValueError: \<^verbatim>\<open>getA\<close> returns no matrix.
  Passed as a tuple, the same position gives the \<^verbatim>\<open>(6, Ncoils)\<close> matrix of the claim
  (lemma \<open>getA_tuple_position\<close>, for every system the constructor builds).
\<close>

theorem getA_array_position_fails:
  "init (linear_field, linear_coords) 1 ''mm'' = Inr linear_system \<and>
   in_box linear_system (1 / 200, 1 / 100, 0) \<and>
   getBact linear_system (PosArray (1 / 200) (1 / 100) 0) = Inr (Stack [[[1 / 200], [1 / 100], [0]]]) \<and>
   getDerMatrices linear_system (PosArray (1 / 200) (1 / 100) 0) =
     Inr (Stack [[[3 / 2], [0], [0]]], Stack [[[0], [2], [0]]], Stack [[[0], [0], [1]]]) \<and>
   getA linear_system (PosArray (1 / 200) (1 / 100) 0) [1, 2, 3] = Inl ValueError \<and>
   getA linear_system (PosTuple (1 / 200) (1 / 100) 0) [1, 2, 3] =
     Inr (Matrix [[1 / 200], [1 / 100], [0], [3 / 2], [4], [3]])"
proof -
  have inb: "in_box linear_system (1 / 200, 1 / 100, 0)"
    by (simp add: in_box_def linear_system_def)
  have act: "getBact linear_system (PosArray (1 / 200) (1 / 100) 0) =
      Inr (Stack [[[1 / 200], [1 / 100], [0]]])"
    by (simp add: getBact_def interp_call_def linear_system_def linear_queries)
  have der: "getDerMatrices linear_system (PosArray (1 / 200) (1 / 100) 0) =
      Inr (Stack [[[3 / 2], [0], [0]]], Stack [[[0], [2], [0]]], Stack [[[0], [0], [1]]])"
    by (simp add: getDerMatrices_def interp_call_def linear_system_def linear_queries)
  have arr: "getA linear_system (PosArray (1 / 200) (1 / 100) 0) [1, 2, 3] = Inl ValueError"
    by (simp add: getA_def act der nd_dot_def ncols_def vstack_def)
  have tup: "getA linear_system (PosTuple (1 / 200) (1 / 100) 0) [1, 2, 3] =
      Inr (Matrix [[1 / 200], [1 / 100], [0], [3 / 2], [4], [3]])"
    by (simp add: getA_def getBact_def getDerMatrices_def interp_call_def linear_system_def
          linear_queries nd_dot_def vec_dot_def ncols_def vstack_def same_cols_def)
  show ?thesis using init_linear inb act der arr tup by (intro conjI)
qed

text \<open>
  C8 (against the interpolator as the spec describes it). On a system the constructor
  builds, a query of the field exactly at the grid node \<open>(xcoords[i], ycoords[j],
  zcoords[k])\<close> returns the stored \<^verbatim>\<open>(3, Ncoils)\<close> slice \<open>Bs[i,j,k,:,:]\<close>, that is the
  stored sample for every component and every coil; for a position passed as an array
  the slice comes under one leading axis.
\<close>

theorem getBact_at_node:
  assumes wf: "wf_system N s"
    and ix: "i < length (xcoords s)" "j < length (ycoords s)" "k < length (zcoords s)"
  shows "getBact s (PosTuple (xcoords s ! i) (ycoords s ! j) (zcoords s ! k)) =
           Inr (Matrix (Bs s ! i ! j ! k)) \<and>
         getBact s (PosArray (xcoords s ! i) (ycoords s ! j) (zcoords s ! k)) =
           Inr (Stack [Bs s ! i ! j ! k])"
proof -
  let ?I = "BactInterpolator s"
  have b: "bound_to N s ?I" and v: "grid_values ?I = Bs s"
    using wf by (simp_all add: wf_system_def)
  have g: "grid_x ?I = xcoords s" "grid_y ?I = ycoords s" "grid_z ?I = zcoords s"
    using b by (simp_all add: bound_to_def)
  have ax: "axis_ok (grid_x ?I)" "axis_ok (grid_y ?I)" "axis_ok (grid_z ?I)"
    using wf g by (simp_all add: wf_system_def)
  have sh: "is_shape (length (grid_x ?I)) (length (grid_y ?I)) (length (grid_z ?I)) 3 N (grid_values ?I)"
    using b by (simp add: bound_to_def)
  have "interp_query ?I (grid_x ?I ! i, grid_y ?I ! j, grid_z ?I ! k) = Inr (grid_values ?I ! i ! j ! k)"
    by (rule interp_query_at_node[OF ax sh]) (use ix g in simp_all)
  then show ?thesis by (simp add: getBact_def interp_call_def g v)
qed

theorem getBact_at_node_witness:
  "wf_system 1 linear_system \<and> 1 < length (xcoords linear_system) \<and>
   2 < length (ycoords linear_system) \<and> 0 < length (zcoords linear_system) \<and>
   getBact linear_system
     (PosTuple (xcoords linear_system ! 1) (ycoords linear_system ! 2) (zcoords linear_system ! 0)) =
     Inr (Matrix (Bs linear_system ! 1 ! 2 ! 0)) \<and>
   getBact linear_system
     (PosArray (xcoords linear_system ! 1) (ycoords linear_system ! 2) (zcoords linear_system ! 0)) =
     Inr (Stack [Bs linear_system ! 1 ! 2 ! 0])"
proof -
  have ix: "1 < length (xcoords linear_system)" "2 < length (ycoords linear_system)"
      "0 < length (zcoords linear_system)"
    by (simp_all add: linear_system_def linear_axis_def)
  show ?thesis
    using wf_linear ix getBact_at_node[OF wf_linear ix] by (intro conjI) simp_all
qed

text \<open>
  C9. \<^verbatim>\<open>extract_unique_vals_tol\<close> rounds a coordinate to the nearest multiple of
  \<open>10\<^sup>-\<^sup>6\<close>, that is to six decimal places, not to six significant digits: the
  coordinates 0.0123451 and 0.0123454, which differ in their sixth significant digit,
  both become 0.012345, so that the axis has one value and the constructor's
  \<^verbatim>\<open>cs[1]\<close> raises IndexError; the coordinates 1234.5671 and 1234.5674, equal to six
  significant digits, stay two values.
\<close>

theorem extract_unique_vals_tol_six_decimals:
  "extract_unique_vals_tol [123451 / 10000000, 123454 / 10000000] = [12345 / 1000000] \<and>
   axis_of [123451 / 10000000, 123454 / 10000000] = Inl IndexError \<and>
   extract_unique_vals_tol [12345671 / 10000, 12345674 / 10000] =
     [12345671 / 10000, 12345674 / 10000]"
  by (simp add: extract_unique_vals_tol_def axis_of_def py_round_def)

text \<open>
  C10. The constructor multiplies every sample coordinate by \<open>10\<^sup>-\<^sup>3\<close> exactly when
  \<open>posunit\<close> is the string \<open>mm\<close>. For every other value of \<open>posunit\<close> the coordinates are
  used as given: the constructor does what it does for \<open>m\<close>, so that an unrecognised unit
  raises no error of its own.
\<close>

theorem init_posunit:
  "init (B, cs) n posunit = init (B, if posunit = ''mm'' then map scale_mm cs else cs) n ''m'' \<and>
   (\<forall>s. init (B, cs) n posunit = Inr s \<longrightarrow>
      coordinates s =
        (if posunit = ''mm''
         then map (\<lambda>(x, y, z). (x * (1 / 1000), y * (1 / 1000), z * (1 / 1000))) cs
         else cs))"
proof -
  have sc: "scale_mm = (\<lambda>(x, y, z). (x * (1 / 1000), y * (1 / 1000), z * (1 / 1000)))"
    by (rule ext) (simp add: scale_mm_def)
  have c: "coordinates s = (if posunit = ''mm'' then map scale_mm cs else cs)"
    if "init (B, cs) n posunit = Inr s" for s
    using that
    by (auto simp: init_def Let_def RegularGridInterpolator_def
          split: sum.splits prod.splits if_splits dest!: compute_gradient_tensor_fields)
  have "init (B, cs) n posunit = init (B, if posunit = ''mm'' then map scale_mm cs else cs) n ''m''"
    by (simp add: init_def Let_def)
  then show ?thesis using c unfolding sc by blast
qed


theorem init_posunit_witness:
  "init (linear_field, linear_coords) 1 ''mm'' = Inr linear_system \<and>
   coordinates linear_system =
     map (\<lambda>(x, y, z). (x * (1 / 1000), y * (1 / 1000), z * (1 / 1000))) linear_coords \<and>
   init (linear_field, linear_coords) 1 ''mm'' = init (linear_field, map scale_mm linear_coords) 1 ''m''"
  using init_posunit[of linear_field linear_coords 1 "''mm''"] init_linear by simp

text \<open>
  C1. The loop of \<^verbatim>\<open>permutate_coils\<close> runs over \<^verbatim>\<open>range(0,6)\<close> whatever the number of
  coils. On the system of three coils that the constructor builds, with the permutation
  \<open>[2, 1, 0]\<close> of \<open>[0, 3)\<close>, the fourth pass reads \<^verbatim>\<open>coilvec[3]\<close> and raises IndexError: no
  slice of the field tensor is reassigned and the object is unchanged.
\<close>

theorem permutate_three_coils_fails:
  "init (coil_field three_coils, coil_coords) 3 ''m'' = Inr (coil_system three_coils three_coils) \<and>
   is_permutation 3 [2, 1, 0] \<and>
   permutate_coils (coil_system three_coils three_coils) [2, 1, 0] =
     Inl (IndexError, coil_system three_coils three_coils)"
proof -
  have p: "is_permutation 3 [2, 1, 0]" by (simp add: is_permutation_def upt_rec)
  have f: "permutate_coils (coil_system three_coils three_coils) [2, 1, 0] =
     Inl (IndexError, coil_system three_coils three_coils)"
    by (simp add: permutate_coils_def permute_loop_three coil_system_def)
  show ?thesis using init_three p f by (intro conjI)
qed

text \<open>
  C2. On the system of six coils that the constructor builds, \<^verbatim>\<open>permutate_coils\<close> with
  \<open>[1, 0, 2, 3, 4, 5]\<close> succeeds and recomputes the field tensor, the field interpolator
  and the three derivative tensors: the x-derivative tensor now holds the weights
  \<open>[2, 1, 3, 4, 5, 6]\<close>. The three derivative interpolators are the ones built before
  the permutation, so that \<^verbatim>\<open>getDerMatrices\<close> still returns the derivatives of the old
  tensor, \<open>[1, 2, 3, 4, 5, 6]\<close>, the same values as before the permutation.
\<close>

theorem permutate_keeps_old_derivatives:
  "init (coil_field six_coils, coil_coords) 6 ''m'' = Inr (coil_system six_coils six_coils) \<and>
   permutate_coils (coil_system six_coils six_coils) [1, 0, 2, 3, 4, 5] =
     Inr (coil_system [2, 1, 3, 4, 5, 6] six_coils) \<and>
   Bx (coil_system [2, 1, 3, 4, 5, 6] six_coils) ! 0 ! 0 ! 0 =
     [[2, 1, 3, 4, 5, 6], [0, 0, 0, 0, 0, 0], [0, 0, 0, 0, 0, 0]] \<and>
   getDerMatrices (coil_system [2, 1, 3, 4, 5, 6] six_coils) (PosTuple 0 0 0) =
     Inr (Matrix [[1, 2, 3, 4, 5, 6], [0, 0, 0, 0, 0, 0], [0, 0, 0, 0, 0, 0]],
          Matrix [[0, 0, 0, 0, 0, 0], [1, 2, 3, 4, 5, 6], [0, 0, 0, 0, 0, 0]],
          Matrix [[0, 0, 0, 0, 0, 0], [0, 0, 0, 0, 0, 0], [1, 2, 3, 4, 5, 6]]) \<and>
   getDerMatrices (coil_system [2, 1, 3, 4, 5, 6] six_coils) (PosTuple 0 0 0) =
     getDerMatrices (coil_system six_coils six_coils) (PosTuple 0 0 0)"
proof -
  have b: "Bx (coil_system [2, 1, 3, 4, 5, 6] six_coils) ! 0 ! 0 ! 0 =
     [[2, 1, 3, 4, 5, 6], [0, 0, 0, 0, 0, 0], [0, 0, 0, 0, 0, 0]]"
    by (simp add: coil_system_def coil_Bx_def upt2)
  have q: "interp_query (coil_interpolator (coil_Bx six_coils)) (0, 0, 0) =
        Inr [[1, 2, 3, 4, 5, 6], [0, 0, 0, 0, 0, 0], [0, 0, 0, 0, 0, 0]]"
      "interp_query (coil_interpolator (coil_By six_coils)) (0, 0, 0) =
        Inr [[0, 0, 0, 0, 0, 0], [1, 2, 3, 4, 5, 6], [0, 0, 0, 0, 0, 0]]"
      "interp_query (coil_interpolator (coil_Bz six_coils)) (0, 0, 0) =
        Inr [[0, 0, 0, 0, 0, 0], [0, 0, 0, 0, 0, 0], [1, 2, 3, 4, 5, 6]]"
    by (simp_all add: interp_query_def coil_interpolator_def coil_axis_def out_of_bounds_def
          find_cell_def cell_fraction_def mat_lerp_def coil_Bx_def coil_By_def coil_Bz_def
          six_coils_def upt2)
  have d: "getDerMatrices (coil_system w six_coils) (PosTuple 0 0 0) =
     Inr (Matrix [[1, 2, 3, 4, 5, 6], [0, 0, 0, 0, 0, 0], [0, 0, 0, 0, 0, 0]],
          Matrix [[0, 0, 0, 0, 0, 0], [1, 2, 3, 4, 5, 6], [0, 0, 0, 0, 0, 0]],
          Matrix [[0, 0, 0, 0, 0, 0], [0, 0, 0, 0, 0, 0], [1, 2, 3, 4, 5, 6]])" for w
    by (simp add: getDerMatrices_def interp_call_def coil_system_def q)
  show ?thesis using init_six permutate_swap b d[of "[2, 1, 3, 4, 5, 6]"] d[of six_coils]
    by (simp only: simp_thms)
qed

text \<open>
  C5, as stated, fails: \<open>[0, 0, 0, 0, 0, 0]\<close> is not a bijection on \<open>[0, 6)\<close>, and on the
  system of six coils \<^verbatim>\<open>permutate_coils\<close> accepts it and copies coil 0 into every slot.
\<close>

theorem permutate_accepts_non_bijection:
  "\<not> is_permutation 6 [0, 0, 0, 0, 0, 0] \<and>
   permutate_coils (coil_system six_coils six_coils) [0, 0, 0, 0, 0, 0] =
     Inr (coil_system [1, 1, 1, 1, 1, 1] six_coils)"
proof -
  have "\<not> is_permutation 6 [0, 0, 0, 0, 0, 0]" by (simp add: is_permutation_def upt6)
  then show ?thesis using permutate_constant by (rule conjI)
qed

text \<open>
  C5, amended. On a system of six coils that the constructor builds, \<^verbatim>\<open>permutate_coils\<close>
  checks no bijection. It succeeds whenever \<open>coilvec\<close> has at least six entries and each
  of its first six entries is an index of the coil axis (from -6 to 5), bijection or
  not. Otherwise it fails with IndexError, raised before any mutation: the object is
  left as it was.
\<close>

theorem permutate_coils_index_check:
  assumes wf: "wf_system 6 s"
  shows "(6 \<le> length cv \<and> (\<forall>a<6. - 6 \<le> cv ! a \<and> cv ! a < 6) \<longrightarrow>
            (\<exists>s'. permutate_coils s cv = Inr s')) \<and>
         (\<not> (6 \<le> length cv \<and> (\<forall>a<6. - 6 \<le> cv ! a \<and> cv ! a < 6)) \<longrightarrow>
            permutate_coils s cv = Inl (IndexError, s))"
proof -
  have c: "(\<forall>a<6. step_ok 6 cv a) \<longleftrightarrow> 6 \<le> length cv \<and> (\<forall>a<6. - 6 \<le> cv ! a \<and> cv ! a < 6)"
  proof
    assume A: "\<forall>a<6. step_ok 6 cv a"
    then have "step_ok 6 cv 5" by simp
    then have "6 \<le> length cv" by (simp add: step_ok_def)
    moreover have "\<forall>a<6. - 6 \<le> cv ! a \<and> cv ! a < 6" using A by (simp add: step_ok_def)
    ultimately show "6 \<le> length cv \<and> (\<forall>a<6. - 6 \<le> cv ! a \<and> cv ! a < 6)" by simp
  next
    assume "6 \<le> length cv \<and> (\<forall>a<6. - 6 \<le> cv ! a \<and> cv ! a < 6)"
    then show "\<forall>a<6. step_ok 6 cv a" by (auto simp: step_ok_def)
  qed
  show ?thesis
    using permutate_coils_cases[OF wf, of cv] unfolding c[symmetric]
    by (auto split: if_splits)
qed

theorem permutate_coils_index_check_witness:
  "wf_system 6 (coil_system six_coils six_coils) \<and>
   \<not> is_permutation 6 [0, 1, 2, 3, 4, 6] \<and>
   permutate_coils (coil_system six_coils six_coils) [0, 1, 2, 3, 4, 6] =
     Inl (IndexError, coil_system six_coils six_coils) \<and>
   \<not> is_permutation 6 [0, 0, 0, 0, 0, 0] \<and>
   (\<exists>s'. permutate_coils (coil_system six_coils six_coils) [0, 0, 0, 0, 0, 0] = Inr s')"
proof -
  have n: "\<not> is_permutation 6 [0, 1, 2, 3, 4, 6]" "\<not> is_permutation 6 [0, 0, 0, 0, 0, 0]"
    by (simp_all add: is_permutation_def upt6)
  have bad: "\<not> (6 \<le> length [0, 1, 2, 3, 4, 6 :: int] \<and>
      (\<forall>a<6. - 6 \<le> [0, 1, 2, 3, 4, 6 :: int] ! a \<and> [0, 1, 2, 3, 4, 6 :: int] ! a < 6))"
  proof
    assume "6 \<le> length [0, 1, 2, 3, 4, 6 :: int] \<and>
      (\<forall>a<6. - 6 \<le> [0, 1, 2, 3, 4, 6 :: int] ! a \<and> [0, 1, 2, 3, 4, 6 :: int] ! a < 6)"
    then have "\<forall>a<6. [0, 1, 2, 3, 4, 6 :: int] ! a < 6" by simp
    then have "(5::nat) < 6 \<longrightarrow> [0, 1, 2, 3, 4, 6 :: int] ! 5 < 6" by (rule spec)
    then show False by simp
  qed
  have good: "6 \<le> length [0, 0, 0, 0, 0, 0 :: int] \<and>
      (\<forall>a<6. - 6 \<le> [0, 0, 0, 0, 0, 0 :: int] ! a \<and> [0, 0, 0, 0, 0, 0 :: int] ! a < 6)"
    by (simp add: nth_Cons split: nat.splits)
  show ?thesis
    using wf_six n bad good
      permutate_coils_index_check[OF wf_six, of "[0, 1, 2, 3, 4, 6]"]
      permutate_coils_index_check[OF wf_six, of "[0, 0, 0, 0, 0, 0]"]
    by blast
qed

end
